theory Spec2Isabelle
  imports
    Main
    "HOL-Library.AList"
    "HOL-Library.Multiset"
    "HOL-Library.Product_Lexorder"
    "HOL-Library.List_Lexorder"
    "HOL-Library.Char_ord"
    "HOL-Library.Sublist"
begin

section \<open>Python values used by \<open>TodoManager\<close>\<close>

text \<open>
  The embedding follows \<open>TodoManager\<close> of \<open>google_drive_module.py\<close>. Sheet cells,
  codes, notes and ISO dates are Python \<open>str\<close> values, modelled as \<open>string\<close>; a JSON
  \<open>null\<close> is \<open>None\<close>. The two exceptions the code catches or lets escape are values of
  \<open>py_error\<close>. Printing, the local cache file and the upload to Drive
  (\<open>save_list_to_drive\<close>) are outside the model.
\<close>

datatype py_error = ValueError | IndexError

subsection \<open>\<open>str\<close> methods\<close>

text \<open>
  \<open>str.upper\<close> and \<open>str.strip\<close> on the ASCII range (letters \<open>a\<close> to \<open>z\<close>; the ASCII
  white space characters of \<open>str.isspace\<close>), and the substring test \<open>sub in s\<close>.
\<close>

definition upper_char :: "char \<Rightarrow> char" where
  "upper_char c =
     (if CHR ''a'' \<le> c \<and> c \<le> CHR ''z'' then char_of (of_char c - (32::nat)) else c)"

definition upper :: "string \<Rightarrow> string" where
  "upper s = map upper_char s"

definition is_space :: "char \<Rightarrow> bool" where
  "is_space c = (let n = (of_char c :: nat) in (9 \<le> n \<and> n \<le> 13) \<or> (28 \<le> n \<and> n \<le> 32))"

definition strip :: "string \<Rightarrow> string" where
  "strip s = rev (dropWhile is_space (rev (dropWhile is_space s)))"

definition contains :: "string \<Rightarrow> string \<Rightarrow> bool" where
  "contains sub s = sublist sub s"

subsection \<open>Lists and rows\<close>

text \<open>\<open>list.index(x)\<close>: the first position of \<open>x\<close>; \<open>None\<close> stands for its \<open>ValueError\<close>.\<close>

fun list_index :: "'a list \<Rightarrow> 'a \<Rightarrow> nat option" where
  "list_index [] x = None"
| "list_index (y # ys) x = (if y = x then Some 0 else map_option Suc (list_index ys x))"

text \<open>\<open>row[i]\<close> for \<open>i \<ge> 0\<close>: \<open>None\<close> stands for its \<open>IndexError\<close>.\<close>

definition cell :: "string list \<Rightarrow> nat \<Rightarrow> string option" where
  "cell row i = (if i < length row then Some (row ! i) else None)"

subsection \<open>\<open>datetime.date\<close>\<close>

text \<open>
  A date is its proleptic Gregorian ordinal (\<open>date.toordinal()\<close>, 1 for 0001-01-01), so
  that \<open>d + timedelta(days=n)\<close> is \<open>d + n\<close> and comparison is that of integers. The
  calendar fields come from the ordinal the way CPython's \<open>_ord2ymd\<close> computes them, and
  \<open>ymd2ord\<close> is its inverse \<open>_ymd2ord\<close>. The range check of \<open>date\<close> (years 1 to 9999) is
  not modelled.
\<close>

type_synonym date = int

definition is_leap :: "int \<Rightarrow> bool" where
  "is_leap year = (year mod 4 = 0 \<and> (year mod 100 \<noteq> 0 \<or> year mod 400 = 0))"

definition DAYS_IN_MONTH :: "int \<Rightarrow> int" where
  "DAYS_IN_MONTH month = [31, 28, 31, 30, 31, 30, 31, 31, 30, 31, 30, 31] ! nat (month - 1)"

definition DAYS_BEFORE_MONTH :: "int \<Rightarrow> int" where
  "DAYS_BEFORE_MONTH month =
     [0, 31, 59, 90, 120, 151, 181, 212, 243, 273, 304, 334] ! nat (month - 1)"

definition days_before_year :: "int \<Rightarrow> int" where
  "days_before_year year =
     (let y = year - 1 in y * 365 + y div 4 - y div 100 + y div 400)"

definition days_before_month :: "int \<Rightarrow> int \<Rightarrow> int" where
  "days_before_month year month =
     DAYS_BEFORE_MONTH month + (if month > 2 \<and> is_leap year then 1 else 0)"

definition days_in_month :: "int \<Rightarrow> int \<Rightarrow> int" where
  "days_in_month year month =
     (if month = 2 \<and> is_leap year then 29 else DAYS_IN_MONTH month)"

definition ymd2ord :: "int \<Rightarrow> int \<Rightarrow> int \<Rightarrow> date" where
  "ymd2ord year month day = days_before_year year + days_before_month year month + day"

definition ord2ymd :: "date \<Rightarrow> int \<times> int \<times> int" where
  "ord2ymd ordinal =
     (let n = ordinal - 1;
          n400 = n div 146097; n = n mod 146097;
          n100 = n div 36524; n = n mod 36524;
          n4 = n div 1461; n = n mod 1461;
          n1 = n div 365; n = n mod 365;
          year = n400 * 400 + 1 + n100 * 100 + n4 * 4 + n1
      in if n1 = 4 \<or> n100 = 4 then (year - 1, 12, 31)
         else
           let leapyear = (n1 = 3 \<and> (n4 \<noteq> 24 \<or> n100 = 3));
               month = (n + 50) div 32;
               preceding = DAYS_BEFORE_MONTH month + (if month > 2 \<and> leapyear then 1 else 0)
           in if preceding > n
              then (year, month - 1,
                    n - (preceding
                          - (DAYS_IN_MONTH (month - 1)
                             + (if month - 1 = 2 \<and> leapyear then 1 else 0))) + 1)
              else (year, month, n - preceding + 1))"

definition day_of :: "date \<Rightarrow> int" where
  "day_of d = snd (snd (ord2ymd d))"

definition digit :: "int \<Rightarrow> char" where
  "digit n = ''0123456789'' ! nat (n mod 10)"

definition pad2 :: "int \<Rightarrow> string" where
  "pad2 n = [digit (n div 10), digit n]"

definition pad4 :: "int \<Rightarrow> string" where
  "pad4 n = [digit (n div 1000), digit (n div 100), digit (n div 10), digit n]"

text \<open>\<open>date.isoformat()\<close>: \<open>YYYY-MM-DD\<close>.\<close>

definition isoformat :: "date \<Rightarrow> string" where
  "isoformat d = (case ord2ymd d of (y, m, dd) \<Rightarrow> pad4 y @ ''-'' @ pad2 m @ ''-'' @ pad2 dd)"

definition month_abbr :: "int \<Rightarrow> string" where
  "month_abbr month =
     [''Jan'', ''Feb'', ''Mar'', ''Apr'', ''May'', ''Jun'',
      ''Jul'', ''Aug'', ''Sep'', ''Oct'', ''Nov'', ''Dec''] ! nat (month - 1)"

text \<open>\<open>d.strftime('%d-%b')\<close> in the C locale.\<close>

definition strftime_d_b :: "date \<Rightarrow> string" where
  "strftime_d_b d = (case ord2ymd d of (y, m, dd) \<Rightarrow> pad2 dd @ ''-'' @ month_abbr m)"

text \<open>
  \<open>datetime.strptime(s, fmt).date()\<close> is a parameter of the model: a function from the
  string and the format to the date, \<open>None\<close> standing for its \<open>ValueError\<close>. Every
  general theorem holds for any such function. \<open>strptime_padded\<close> below is the instance
  used at concrete inputs: it accepts exactly the strings whose numeric fields are
  zero-padded to the full width (two digits, four for \<open>%Y\<close>) and whose date and time are
  valid, on which it agrees with Python.
\<close>

type_synonym strptime = "string \<Rightarrow> string \<Rightarrow> date option"

definition is_digit :: "char \<Rightarrow> bool" where
  "is_digit c = (CHR ''0'' \<le> c \<and> c \<le> CHR ''9'')"

definition digits_value :: "string \<Rightarrow> int" where
  "digits_value s = foldl (\<lambda>acc c. acc * 10 + (int (of_char c) - 48)) 0 s"

text \<open>
  The fields of a string read along a format: each directive \<open>%c\<close> takes a fixed number
  of digits, any other format character matches itself.
\<close>

definition field_width :: "char \<Rightarrow> nat" where
  "field_width c = (if c = CHR ''Y'' then 4 else 2)"

fun read_fields :: "string \<Rightarrow> string \<Rightarrow> (char \<times> int) list option" where
  "read_fields [] s = (if s = [] then Some [] else None)"
| "read_fields [f] s =
     (case s of [] \<Rightarrow> None
      | c # cs \<Rightarrow> if f \<noteq> CHR ''%'' \<and> c = f \<and> cs = [] then Some [] else None)"
| "read_fields (f # g # fs) s =
     (if f = CHR ''%'' then
        (let w = field_width g; ds = take w s in
         if length ds = w \<and> list_all is_digit ds
         then map_option (\<lambda>r. (g, digits_value ds) # r) (read_fields fs (drop w s))
         else None)
      else
        (case s of [] \<Rightarrow> None
         | c # cs \<Rightarrow> if c = f then read_fields (g # fs) cs else None))"

definition field :: "(char \<times> int) list \<Rightarrow> char \<Rightarrow> int \<Rightarrow> int" where
  "field fs c dflt = (case map_of fs c of None \<Rightarrow> dflt | Some v \<Rightarrow> v)"

definition strptime_padded :: strptime where
  "strptime_padded s fmt =
     (case read_fields fmt s of
        None \<Rightarrow> None
      | Some fs \<Rightarrow>
          (let y = field fs (CHR ''Y'') 1900; m = field fs (CHR ''m'') 1;
               d = field fs (CHR ''d'') 1;
               hh = field fs (CHR ''H'') 0; mm = field fs (CHR ''M'') 0;
               ss = field fs (CHR ''S'') 0
           in if 1 \<le> y \<and> 1 \<le> m \<and> m \<le> 12 \<and> 1 \<le> d \<and> d \<le> days_in_month y m
                 \<and> hh < 24 \<and> mm < 60 \<and> ss < 60
              then Some (ymd2ord y m d) else None))"

text \<open>
  Iterating over \<open>set(xs)\<close> visits each distinct element once, in an order the language
  does not fix; the order is a parameter. \<open>set_iteration it\<close> says that \<open>it\<close> is such an
  order.
\<close>

type_synonym set_iter = "date list \<Rightarrow> date list"

definition set_iteration :: "set_iter \<Rightarrow> bool" where
  "set_iteration it = (\<forall>xs. set (it xs) = set xs \<and> distinct (it xs))"

section \<open>The data source\<close>

text \<open>
  \<open>sheet_manager.all_data\<close>: a dictionary from sheet names to a header row and the data
  rows, each row a list of cells.
\<close>

record sheet =
  header :: "string list"
  data :: "string list list"

type_synonym all_data = "string \<rightharpoonup> sheet"

record trans =
  trans_date :: date
  trans_type :: string
  specific :: string

text \<open>The loop \<open>for fmt in (...): try: ... break; except ValueError: continue\<close>.\<close>

fun parse_first :: "strptime \<Rightarrow> string \<Rightarrow> string list \<Rightarrow> date option" where
  "parse_first P s [] = None"
| "parse_first P s (fmt # fmts) =
     (case P s fmt of Some d \<Rightarrow> Some d | None \<Rightarrow> parse_first P s fmts)"

definition MO_FORMATS :: "string list" where
  "MO_FORMATS = [''%Y-%m-%d %H:%M'', ''%d/%m/%Y %H:%M:%S'', ''%Y-%m-%d'', ''%d/%m/%Y'']"

definition UT_FORMATS :: "string list" where
  "UT_FORMATS = [''%d/%m/%Y %H:%M:%S'', ''%d-%m-%Y'', ''%d/%m/%Y'']"

subsection \<open>Transactions per apartment\<close>

text \<open>
  The four columns of \<open>MO_DATA\<close>, looked up in the stripped, upper-cased header;
  \<open>None\<close> when one is missing (the \<open>ValueError\<close> that \<open>generate_list\<close> catches).
\<close>

definition mo_columns :: "string list \<Rightarrow> (nat \<times> nat \<times> nat \<times> nat) option" where
  "mo_columns hdr =
     (let mo_header_upper = map (\<lambda>h. upper (strip h)) hdr in
      case list_index mo_header_upper ''APARTMENT CODE'' of None \<Rightarrow> None
      | Some mo_code_col \<Rightarrow>
      (case list_index mo_header_upper ''SUBMISSION DATE'' of None \<Rightarrow> None
       | Some mo_date_col \<Rightarrow>
       (case list_index mo_header_upper ''TYPE OF MONEY TASK'' of None \<Rightarrow> None
        | Some mo_type_col \<Rightarrow>
        (case list_index mo_header_upper ''SPECIFIC MONEY TASK'' of None \<Rightarrow> None
         | Some mo_specific_task_col \<Rightarrow>
             Some (mo_code_col, mo_date_col, mo_type_col, mo_specific_task_col)))))"

text \<open>One row of \<open>MO_DATA\<close>: the apartment and the event it adds, if any.\<close>

definition mo_row_event ::
  "strptime \<Rightarrow> nat \<times> nat \<times> nat \<times> nat \<Rightarrow> string list \<Rightarrow> (string \<times> trans) option" where
  "mo_row_event P cols row =
     (case cols of (mo_code_col, mo_date_col, mo_type_col, mo_specific_task_col) \<Rightarrow>
        if length row > max (max mo_code_col mo_date_col) (max mo_type_col mo_specific_task_col)
        then
          (let code = strip (row ! mo_code_col) in
           if code = [] then None
           else
             (case parse_first P (strip (row ! mo_date_col)) MO_FORMATS of
                None \<Rightarrow> None
              | Some parsed_date \<Rightarrow>
                  Some (code, \<lparr> trans_date = parsed_date,
                                trans_type = strip (row ! mo_type_col),
                                specific = strip (row ! mo_specific_task_col) \<rparr>)))
        else None)"

text \<open>
  The dictionary \<open>transactions\<close> as a function from the code to its list: a code is a
  key of the dictionary exactly when its list is not empty, since a key is only created
  by an \<open>append\<close>.
\<close>

fun collect_transactions ::
  "strptime \<Rightarrow> nat \<times> nat \<times> nat \<times> nat \<Rightarrow> string list list \<Rightarrow> (string \<Rightarrow> trans list)
     \<Rightarrow> (string \<Rightarrow> trans list)" where
  "collect_transactions P cols [] tr = tr"
| "collect_transactions P cols (row # rows) tr =
     collect_transactions P cols rows
       (case mo_row_event P cols row of
          None \<Rightarrow> tr
        | Some (code, ev) \<Rightarrow> tr(code := tr code @ [ev]))"

text \<open>
  \<open>sort(key=lambda x: x['date'], reverse=True)\<close>: descending by date, and stable (events
  of one date keep their order).
\<close>

definition sort_desc :: "trans list \<Rightarrow> trans list" where
  "sort_desc ts = sort_key (\<lambda>t. - trans_date t) ts"

definition build_transactions ::
  "strptime \<Rightarrow> nat \<times> nat \<times> nat \<times> nat \<Rightarrow> string list list \<Rightarrow> string \<Rightarrow> trans list" where
  "build_transactions P cols rows =
     (\<lambda>code. sort_desc (collect_transactions P cols rows (\<lambda>_. []) code))"

subsection \<open>Last meter reading per apartment\<close>

definition ut_columns :: "string list \<Rightarrow> (nat \<times> nat) option" where
  "ut_columns ut_header =
     (case list_index ut_header ''Apartment Code'' of None \<Rightarrow> None
      | Some ut_code_col \<Rightarrow>
      (case list_index ut_header ''Date of Reading'' of None \<Rightarrow> None
       | Some ut_date_col \<Rightarrow> Some (ut_code_col, ut_date_col)))"

fun collect_ut ::
  "strptime \<Rightarrow> nat \<Rightarrow> nat \<Rightarrow> string list list \<Rightarrow> (string \<rightharpoonup> date) \<Rightarrow> (string \<rightharpoonup> date)" where
  "collect_ut P ut_code_col ut_date_col [] last_ut_dates = last_ut_dates"
| "collect_ut P ut_code_col ut_date_col (row # rows) last_ut_dates =
     collect_ut P ut_code_col ut_date_col rows
       (case cell row ut_code_col of None \<Rightarrow> last_ut_dates
        | Some code \<Rightarrow>
        (case cell row ut_date_col of None \<Rightarrow> last_ut_dates
         | Some date_str \<Rightarrow>
         (case parse_first P date_str UT_FORMATS of None \<Rightarrow> last_ut_dates
          | Some reading_date \<Rightarrow>
              (case last_ut_dates code of
                 None \<Rightarrow> last_ut_dates(code \<mapsto> reading_date)
               | Some d \<Rightarrow>
                   if reading_date > d then last_ut_dates(code \<mapsto> reading_date)
                   else last_ut_dates))))"

section \<open>Tasks and the task store\<close>

text \<open>
  A task is the dictionary that \<open>_create_todo_item\<close> builds, with every key present.
  \<open>checked\<close> is the dictionary of check boxes in insertion order. The field \<open>note\<close> of
  the source is \<open>note_text\<close> here.
\<close>

record todo_item =
  ap_code :: string
  reason :: string
  due_date :: "string option"
  realtor :: "string option"
  status :: string
  manual :: bool
  checked :: "(string \<times> bool) list"
  check_time :: "string option"
  note_text :: string
  last_transaction_date :: "string option"
  last_transaction_type :: "string option"
  last_ut_reading_date :: "string option"

definition create_todo_item ::
  "string \<Rightarrow> string \<Rightarrow> string option \<Rightarrow> string option \<Rightarrow> string \<Rightarrow> todo_item" where
  "create_todo_item code rsn due rltr st =
     \<lparr> ap_code = code, reason = rsn, due_date = due, realtor = rltr, status = st,
       manual = False,
       checked = [(''TELEGRAM'', False), (''EMAIL'', False), (''UT_DATA'', False),
                  (''WRITE'', False)],
       check_time = None, note_text = '''',
       last_transaction_date = None, last_transaction_type = None,
       last_ut_reading_date = None \<rparr>"

text \<open>\<open>x or ''\<close> for an optional string.\<close>

definition or_empty :: "string option \<Rightarrow> string" where
  "or_empty x = (case x of None \<Rightarrow> '''' | Some s \<Rightarrow> s)"

text \<open>
  The identity key as \<open>generate_list\<close> and \<open>add_manual_item\<close> compute it:
  \<open>item['ap_code'] + (item.get('due_date') or '')\<close>.
\<close>

definition item_key :: "todo_item \<Rightarrow> string" where
  "item_key item = ap_code item @ or_empty (due_date item)"

text \<open>\<open>all(x['checked'].values())\<close>.\<close>

definition all_checked :: "todo_item \<Rightarrow> bool" where
  "all_checked x = list_all snd (checked x)"

record manager =
  todo_list :: "todo_item list"
  trash_bin :: "todo_item list"

text \<open>
  \<open>_sort_list\<close>: \<open>list.sort\<close> is stable, the key is a tuple compared lexicographically,
  \<open>False < True\<close>, strings by code point.
\<close>

definition sort_item_key :: "todo_item \<Rightarrow> bool \<times> bool \<times> string" where
  "sort_item_key x = (all_checked x, due_date x = None, or_empty (due_date x))"

definition sort_list :: "todo_item list \<Rightarrow> todo_item list" where
  "sort_list xs = sort_key sort_item_key xs"

text \<open>
  \<open>remove_item\<close> and \<open>restore_item\<close> look for the first task with the given code and
  \<open>due_date\<close>; \<open>list.remove\<close> deletes the first element equal to it.
\<close>

definition same_task :: "string \<Rightarrow> string option \<Rightarrow> todo_item \<Rightarrow> bool" where
  "same_task code due item = (ap_code item = code \<and> due_date item = due)"

definition remove_item :: "string \<Rightarrow> string option \<Rightarrow> manager \<Rightarrow> bool \<times> manager" where
  "remove_item code due m =
     (case find (same_task code due) (todo_list m) of
        Some item \<Rightarrow>
          (True, m\<lparr> todo_list := remove1 item (todo_list m),
                    trash_bin := trash_bin m @ [item] \<rparr>)
      | None \<Rightarrow> (False, m))"


text \<open>
  \<open>update_note\<close> and \<open>update_checkbox\<close> change the first task with the given code and
  \<open>due_date\<close>, and nothing when there is none.
\<close>

fun update_first :: "('a \<Rightarrow> bool) \<Rightarrow> ('a \<Rightarrow> 'a) \<Rightarrow> 'a list \<Rightarrow> 'a list" where
  "update_first P f [] = []"
| "update_first P f (x # xs) = (if P x then f x # xs else x # update_first P f xs)"


definition update_checkbox ::
  "string \<Rightarrow> string \<Rightarrow> bool \<Rightarrow> string option \<Rightarrow> manager \<Rightarrow> manager" where
  "update_checkbox code checkbox_name is_checked due m =
     m\<lparr> todo_list :=
          update_first (same_task code due)
            (\<lambda>item. item\<lparr> checked := AList.update checkbox_name is_checked (checked item) \<rparr>)
            (todo_list m) \<rparr>"

section \<open>\<open>generate_list\<close>\<close>

subsection \<open>Deriving the tasks of one apartment row\<close>

text \<open>The five columns of \<open>APARTMENTS\<close>, by their exact names; \<open>None\<close> is \<open>ValueError\<close>.\<close>

record ap_cols =
  ap_code_col :: nat
  ap_start_col :: nat
  ap_end_col :: nat
  ap_realtor_col :: nat
  ap_checkout_col :: nat

definition ap_columns :: "string list \<Rightarrow> ap_cols option" where
  "ap_columns ap_header =
     (case list_index ap_header ''AP CODE'' of None \<Rightarrow> None
      | Some c \<Rightarrow>
      (case list_index ap_header ''START'' of None \<Rightarrow> None
       | Some s \<Rightarrow>
       (case list_index ap_header ''END'' of None \<Rightarrow> None
        | Some e \<Rightarrow>
        (case list_index ap_header ''REALTOR'' of None \<Rightarrow> None
         | Some r \<Rightarrow>
         (case list_index ap_header ''CHECK_OUT'' of None \<Rightarrow> None
          | Some co \<Rightarrow>
              Some \<lparr> ap_code_col = c, ap_start_col = s, ap_end_col = e,
                     ap_realtor_col = r, ap_checkout_col = co \<rparr>)))))"

definition in_window :: "date \<Rightarrow> date \<Rightarrow> date \<Rightarrow> bool" where
  "in_window start_date end_date d = (start_date \<le> d \<and> d \<le> end_date)"

text \<open>
  One of the two guarded blocks that set \<open>is_upcoming_checkout\<close>: the cell is read only
  when the row is long enough, parsed only when it is not empty, and a \<open>ValueError\<close> of
  the parser is swallowed.
\<close>

definition window_flag ::
  "strptime \<Rightarrow> string list \<Rightarrow> nat \<Rightarrow> string \<Rightarrow> date \<Rightarrow> date \<Rightarrow> bool" where
  "window_flag P row col fmt start_date end_date =
     (case cell row col of
        None \<Rightarrow> False
      | Some s \<Rightarrow>
          if s = [] then False
          else (case P s fmt of None \<Rightarrow> False | Some d \<Rightarrow> in_window start_date end_date d))"

definition is_upcoming_checkout ::
  "strptime \<Rightarrow> ap_cols \<Rightarrow> string list \<Rightarrow> date \<Rightarrow> date \<Rightarrow> bool" where
  "is_upcoming_checkout P cols row start_date end_date =
     (window_flag P row (ap_checkout_col cols) ''%d.%m.%Y'' start_date end_date
      \<or> window_flag P row (ap_end_col cols) ''%d-%m-%Y'' start_date end_date)"

text \<open>\<open>transactions.get(ap_code, [None])[0]\<close>.\<close>

definition latest_transaction :: "trans list \<Rightarrow> trans option" where
  "latest_transaction ts = (case ts of [] \<Rightarrow> None | t # _ \<Rightarrow> Some t)"

text \<open>\<open>last_trans_type and 'CHECK-OUT' in last_trans_type.upper()\<close>.\<close>

definition vacated :: "trans list \<Rightarrow> bool" where
  "vacated ts =
     (case latest_transaction ts of
        None \<Rightarrow> False
      | Some t \<Rightarrow> trans_type t \<noteq> [] \<and> contains ''CHECK-OUT'' (upper (trans_type t)))"

text \<open>
  The loop \<open>while current_date <= end_date\<close> that collects the dates of the window whose
  day of the month is the payment day.
\<close>

function due_dates_loop :: "date \<Rightarrow> date \<Rightarrow> int \<Rightarrow> date list \<Rightarrow> date list" where
  "due_dates_loop current_date end_date payment_day all_due_dates_in_range =
     (if current_date \<le> end_date
      then due_dates_loop (current_date + 1) end_date payment_day
             (if day_of current_date = payment_day
              then all_due_dates_in_range @ [current_date]
              else all_due_dates_in_range)
      else all_due_dates_in_range)"
  by pat_completeness auto
termination
  by (relation "measure (\<lambda>(c, e, p, a). nat (e - c + 1))") auto

declare due_dates_loop.simps [simp del]

definition is_rent_payment :: "trans \<Rightarrow> bool" where
  "is_rent_payment t =
     (contains ''CHECK-IN'' (upper (trans_type t))
      \<or> contains ''RENT COLLECT'' (upper (specific t)))"

text \<open>
  The search for a payment of one due date: the first event of the list that is a rent
  payment dated from nine days before the due date to five days after it.
\<close>

fun find_payment :: "trans list \<Rightarrow> date \<Rightarrow> date option" where
  "find_payment [] due = None"
| "find_payment (t # ts) due =
     (if is_rent_payment t \<and> due - 9 \<le> trans_date t \<and> trans_date t \<le> due + 5
      then Some (trans_date t)
      else find_payment ts due)"

text \<open>The context annotations every derived task receives.\<close>

definition with_context ::
  "trans list \<Rightarrow> date option \<Rightarrow> todo_item \<Rightarrow> todo_item" where
  "with_context ts last_ut_date item =
     item\<lparr> last_transaction_date :=
             map_option (\<lambda>t. isoformat (trans_date t)) (latest_transaction ts),
           last_transaction_type := map_option trans_type (latest_transaction ts),
           last_ut_reading_date := map_option isoformat last_ut_date \<rparr>"

definition DOOR :: string where
  "DOOR = [CHR 0xF0, CHR 0x9F, CHR 0x9A, CHR 0xAA]"

definition rent_item ::
  "string \<Rightarrow> string \<Rightarrow> trans list \<Rightarrow> bool \<Rightarrow> date option \<Rightarrow> date \<Rightarrow> todo_item" where
  "rent_item code realtor_name ts upcoming last_ut_date due =
     with_context ts last_ut_date
       (case find_payment ts due of
          Some payment_found_date \<Rightarrow>
            create_todo_item code
              (''Rent due '' @ strftime_d_b due @ '', Paid on ''
                 @ strftime_d_b payment_found_date)
              (Some (isoformat due)) (Some realtor_name) ''Paid''
        | None \<Rightarrow>
            create_todo_item code
              (''Rent due on '' @ strftime_d_b due @ '' (UNPAID)''
                 @ (if upcoming then '' - '' @ DOOR @ '' CHECK-OUT'' else []))
              (Some (isoformat due)) (Some realtor_name) ''Unpaid'')"

text \<open>
  Block A: the contract start is read and parsed inside a \<open>try\<close>; a short row
  (\<open>IndexError\<close>) or an unparseable date (\<open>ValueError\<close>) gives no rent task.
\<close>

definition rent_items ::
  "strptime \<Rightarrow> ap_cols \<Rightarrow> string list \<Rightarrow> string \<Rightarrow> string \<Rightarrow> trans list \<Rightarrow> bool
     \<Rightarrow> date option \<Rightarrow> date \<Rightarrow> date \<Rightarrow> todo_item list" where
  "rent_items P cols row code realtor_name ts upcoming last_ut_date start_date end_date =
     (case cell row (ap_start_col cols) of
        None \<Rightarrow> []
      | Some s \<Rightarrow>
          (case P s ''%d-%m-%Y'' of
             None \<Rightarrow> []
           | Some contract_start_date \<Rightarrow>
               map (rent_item code realtor_name ts upcoming last_ut_date)
                 (due_dates_loop start_date end_date (day_of contract_start_date) [])))"

text \<open>Block B: the dates to check, the contract end first, each under its own \<open>try\<close>.\<close>

definition parsed_cell :: "strptime \<Rightarrow> string list \<Rightarrow> nat \<Rightarrow> string \<Rightarrow> date list" where
  "parsed_cell P row col fmt =
     (case cell row col of
        None \<Rightarrow> []
      | Some s \<Rightarrow> (case P s fmt of None \<Rightarrow> [] | Some d \<Rightarrow> [d]))"

definition checkout_dates_to_check :: "strptime \<Rightarrow> ap_cols \<Rightarrow> string list \<Rightarrow> date list" where
  "checkout_dates_to_check P cols row =
     parsed_cell P row (ap_end_col cols) ''%d-%m-%Y''
     @ parsed_cell P row (ap_checkout_col cols) ''%d.%m.%Y''"

definition is_checkout_of :: "string \<Rightarrow> todo_item \<Rightarrow> bool" where
  "is_checkout_of code item = (ap_code item = code \<and> status item = ''Check-out'')"

definition checkout_item ::
  "string \<Rightarrow> string \<Rightarrow> trans list \<Rightarrow> date option \<Rightarrow> date \<Rightarrow> todo_item" where
  "checkout_item code realtor_name ts last_ut_date checkout_date =
     with_context ts last_ut_date
       (create_todo_item code (''Check-out on '' @ strftime_d_b checkout_date)
          (Some (isoformat checkout_date)) (Some realtor_name) ''Check-out'')"

fun checkout_loop ::
  "string \<Rightarrow> string \<Rightarrow> trans list \<Rightarrow> date option \<Rightarrow> date \<Rightarrow> date \<Rightarrow> date list
     \<Rightarrow> todo_item list \<Rightarrow> todo_item list" where
  "checkout_loop code realtor_name ts last_ut_date start_date end_date [] new_list = new_list"
| "checkout_loop code realtor_name ts last_ut_date start_date end_date (d # ds) new_list =
     checkout_loop code realtor_name ts last_ut_date start_date end_date ds
       (if in_window start_date end_date d \<and> \<not> list_ex (is_checkout_of code) new_list
        then new_list @ [checkout_item code realtor_name ts last_ut_date d]
        else new_list)"

text \<open>The body of the loop over the rows of \<open>APARTMENTS\<close>.\<close>

definition process_row ::
  "strptime \<Rightarrow> set_iter \<Rightarrow> ap_cols \<Rightarrow> (string \<Rightarrow> trans list) \<Rightarrow> (string \<rightharpoonup> date)
     \<Rightarrow> date \<Rightarrow> date \<Rightarrow> string list \<Rightarrow> todo_item list \<Rightarrow> todo_item list" where
  "process_row P it cols transactions last_ut_dates start_date end_date row new_list =
     (case cell row (ap_code_col cols) of
        None \<Rightarrow> new_list
      | Some code \<Rightarrow>
          if code = [] then new_list
          else
            (let realtor_name =
                   (case cell row (ap_realtor_col cols) of None \<Rightarrow> ''Unknown'' | Some r \<Rightarrow> r);
                 ts = transactions code;
                 last_ut_date = last_ut_dates code;
                 upcoming = is_upcoming_checkout P cols row start_date end_date
             in if vacated ts then new_list
                else
                  checkout_loop code realtor_name ts last_ut_date start_date end_date
                    (it (checkout_dates_to_check P cols row))
                    (new_list
                     @ rent_items P cols row code realtor_name ts upcoming last_ut_date
                         start_date end_date)))"

fun derive_rows ::
  "strptime \<Rightarrow> set_iter \<Rightarrow> ap_cols \<Rightarrow> (string \<Rightarrow> trans list) \<Rightarrow> (string \<rightharpoonup> date)
     \<Rightarrow> date \<Rightarrow> date \<Rightarrow> string list list \<Rightarrow> todo_item list \<Rightarrow> todo_item list" where
  "derive_rows P it cols transactions last_ut_dates start_date end_date [] new_list = new_list"
| "derive_rows P it cols transactions last_ut_dates start_date end_date (row # rows) new_list =
     derive_rows P it cols transactions last_ut_dates start_date end_date rows
       (process_row P it cols transactions last_ut_dates start_date end_date row new_list)"

subsection \<open>Merging with the old state\<close>

text \<open>
  \<open>old_state\<close> is the dictionary comprehension over the old list: a key keeps the place
  of its first task and the value of its last one, which is \<open>AList.update\<close>.
\<close>

fun build_old_state ::
  "todo_item list \<Rightarrow> (string \<times> todo_item) list \<Rightarrow> (string \<times> todo_item) list" where
  "build_old_state [] old_state = old_state"
| "build_old_state (item # items) old_state =
     build_old_state items (AList.update (item_key item) item old_state)"

definition merge_item :: "(string \<times> todo_item) list \<Rightarrow> todo_item \<Rightarrow> todo_item" where
  "merge_item old_state new_item =
     (case map_of old_state (item_key new_item) of
        Some old_item \<Rightarrow>
          new_item\<lparr> checked := checked old_item, note_text := note_text old_item,
                    check_time := check_time old_item \<rparr>
      | None \<Rightarrow> new_item)"

text \<open>
  The second loop, over \<open>old_state.items()\<close>: a manual old task is appended unless a task
  of \<open>final_list\<close> has its apartment code.
\<close>

fun readd_manual :: "(string \<times> todo_item) list \<Rightarrow> todo_item list \<Rightarrow> todo_item list" where
  "readd_manual [] final_list = final_list"
| "readd_manual ((k, old_item) # rest) final_list =
     readd_manual rest
       (if manual old_item \<and> \<not> list_ex (\<lambda>x. ap_code x = ap_code old_item) final_list
        then final_list @ [old_item]
        else final_list)"

definition reconcile :: "todo_item list \<Rightarrow> todo_item list \<Rightarrow> todo_item list" where
  "reconcile old_list new_list =
     (let old_state = build_old_state old_list []
      in readd_manual old_state (map (merge_item old_state) new_list))"

subsection \<open>The whole call\<close>

text \<open>
  \<open>derive\<close> is the part of \<open>generate_list\<close> before the merge: \<open>Inr None\<close> is one of the two
  early \<open>return\<close>s (a sheet is not loaded, a column of \<open>MO_DATA\<close> is missing), \<open>Inl\<close> an
  exception that leaves the function.
\<close>

definition derive ::
  "strptime \<Rightarrow> set_iter \<Rightarrow> all_data \<Rightarrow> date \<Rightarrow> date \<Rightarrow> py_error + todo_item list option" where
  "derive P it sheets start_date end_date =
     (case sheets ''APARTMENTS'' of None \<Rightarrow> Inr None
      | Some ap \<Rightarrow>
      (case sheets ''MO_DATA'' of None \<Rightarrow> Inr None
       | Some mo \<Rightarrow>
       (case sheets ''UT_DATA'' of None \<Rightarrow> Inr None
        | Some ut \<Rightarrow>
        (case mo_columns (header mo) of None \<Rightarrow> Inr None
         | Some mcols \<Rightarrow>
         (case ut_columns (header ut) of None \<Rightarrow> Inl ValueError
          | Some (ut_code_col, ut_date_col) \<Rightarrow>
          (case ap_columns (header ap) of None \<Rightarrow> Inl ValueError
           | Some cols \<Rightarrow>
               Inr (Some
                 (derive_rows P it cols
                    (build_transactions P mcols (data mo))
                    (collect_ut P ut_code_col ut_date_col (data ut) Map.empty)
                    start_date end_date (data ap) []))))))))"

definition generate_list ::
  "strptime \<Rightarrow> set_iter \<Rightarrow> all_data \<Rightarrow> date \<Rightarrow> date \<Rightarrow> manager \<Rightarrow> py_error + manager" where
  "generate_list P it sheets start_date end_date m =
     (case derive P it sheets start_date end_date of
        Inl e \<Rightarrow> Inl e
      | Inr None \<Rightarrow> Inr m
      | Inr (Some new_list) \<Rightarrow>
          Inr (m\<lparr> todo_list := sort_list (reconcile (todo_list m) new_list) \<rparr>))"

text \<open>
  The manager after the call, whatever its outcome: an exception leaves \<open>todo_list\<close> as
  it was, since the list is assigned in the last statements.
\<close>

definition after_generate ::
  "strptime \<Rightarrow> set_iter \<Rightarrow> all_data \<Rightarrow> date \<Rightarrow> date \<Rightarrow> manager \<Rightarrow> manager" where
  "after_generate P it sheets start_date end_date m =
     (case generate_list P it sheets start_date end_date m of Inl e \<Rightarrow> m | Inr m' \<Rightarrow> m')"

section \<open>\<open>add_manual_item\<close>\<close>

text \<open>
  \<open>get_apartment_data\<close>: the first row of \<open>APARTMENTS\<close> whose code cell equals the code
  (both stripped and upper-cased), as a dictionary from the header names to the cells,
  \<open>None\<close> for a cell the row is too short for. A header name that occurs twice keeps its
  last cell.
\<close>

definition row_dict :: "string list \<Rightarrow> string list \<Rightarrow> (string \<rightharpoonup> string option)" where
  "row_dict hdr row = map_of (rev (zip hdr (map (cell row) [0..<length hdr])))"

definition get_apartment_data :: "all_data \<Rightarrow> string \<Rightarrow> (string \<rightharpoonup> string option) option" where
  "get_apartment_data sheets code =
     (case sheets ''APARTMENTS'' of
        None \<Rightarrow> None
      | Some sh \<Rightarrow>
          (case list_index (map (\<lambda>h. upper (strip h)) (header sh)) ''AP CODE'' of
             None \<Rightarrow> None
           | Some code_column_index \<Rightarrow>
               (case find (\<lambda>row. length row > code_column_index
                            \<and> upper (strip (row ! code_column_index)) = upper (strip code))
                       (data sh) of
                  None \<Rightarrow> None
                | Some row \<Rightarrow> Some (row_dict (header sh) row))))"

text \<open>
  The two context look-ups. A missing column skips the look-up (the \<open>ValueError\<close> is
  caught); a matching row that is too short for the date or type column raises
  \<open>IndexError\<close>, which is not caught.
\<close>

fun manual_trans ::
  "strptime \<Rightarrow> nat \<Rightarrow> nat \<Rightarrow> nat \<Rightarrow> string \<Rightarrow> string list list \<Rightarrow> trans list
     \<Rightarrow> py_error + trans list" where
  "manual_trans P mo_code_col mo_date_col mo_type_col code [] all_trans = Inr all_trans"
| "manual_trans P mo_code_col mo_date_col mo_type_col code (row # rows) all_trans =
     (if length row > mo_code_col \<and> strip (row ! mo_code_col) = code then
        (case cell row mo_date_col of
           None \<Rightarrow> Inl IndexError
         | Some date_cell \<Rightarrow>
             (case cell row mo_type_col of
                None \<Rightarrow> Inl IndexError
              | Some type_cell \<Rightarrow>
                  manual_trans P mo_code_col mo_date_col mo_type_col code rows
                    (case parse_first P (strip date_cell) MO_FORMATS of
                       None \<Rightarrow> all_trans
                     | Some parsed_date \<Rightarrow>
                         all_trans @ [\<lparr> trans_date = parsed_date,
                                        trans_type = strip type_cell,
                                        specific = [] \<rparr>])))
      else manual_trans P mo_code_col mo_date_col mo_type_col code rows all_trans)"

definition manual_mo_context :: "strptime \<Rightarrow> all_data \<Rightarrow> string \<Rightarrow> todo_item \<Rightarrow> py_error + todo_item" where
  "manual_mo_context P sheets code item =
     (let mo_data = (case sheets ''MO_DATA'' of None \<Rightarrow> [] | Some sh \<Rightarrow> data sh);
          mo_header_upper =
            map (\<lambda>h. upper (strip h))
              (case sheets ''MO_DATA'' of None \<Rightarrow> [] | Some sh \<Rightarrow> header sh)
      in case list_index mo_header_upper ''APARTMENT CODE'' of None \<Rightarrow> Inr item
         | Some mo_code_col \<Rightarrow>
         (case list_index mo_header_upper ''SUBMISSION DATE'' of None \<Rightarrow> Inr item
          | Some mo_date_col \<Rightarrow>
          (case list_index mo_header_upper ''TYPE OF MONEY TASK'' of None \<Rightarrow> Inr item
           | Some mo_type_col \<Rightarrow>
             (case manual_trans P mo_code_col mo_date_col mo_type_col code mo_data [] of
                Inl e \<Rightarrow> Inl e
              | Inr all_trans \<Rightarrow>
                  (case sort_desc all_trans of
                     [] \<Rightarrow> Inr item
                   | t # _ \<Rightarrow>
                       Inr (item\<lparr> last_transaction_date := Some (isoformat (trans_date t)),
                                  last_transaction_type := Some (trans_type t) \<rparr>))))))"

fun manual_ut ::
  "strptime \<Rightarrow> nat \<Rightarrow> nat \<Rightarrow> string \<Rightarrow> string list list \<Rightarrow> date option
     \<Rightarrow> py_error + date option" where
  "manual_ut P ut_code_col ut_date_col code [] last_ut_date = Inr last_ut_date"
| "manual_ut P ut_code_col ut_date_col code (row # rows) last_ut_date =
     (if length row > ut_code_col \<and> strip (row ! ut_code_col) = code then
        (case cell row ut_date_col of
           None \<Rightarrow> Inl IndexError
         | Some date_str \<Rightarrow>
             manual_ut P ut_code_col ut_date_col code rows
               (case parse_first P date_str UT_FORMATS of
                  None \<Rightarrow> last_ut_date
                | Some reading_date \<Rightarrow>
                    (case last_ut_date of
                       None \<Rightarrow> Some reading_date
                     | Some d \<Rightarrow> if reading_date > d then Some reading_date else Some d)))
      else manual_ut P ut_code_col ut_date_col code rows last_ut_date)"

definition manual_ut_context :: "strptime \<Rightarrow> all_data \<Rightarrow> string \<Rightarrow> todo_item \<Rightarrow> py_error + todo_item" where
  "manual_ut_context P sheets code item =
     (let ut_data = (case sheets ''UT_DATA'' of None \<Rightarrow> [] | Some sh \<Rightarrow> data sh);
          ut_header = (case sheets ''UT_DATA'' of None \<Rightarrow> [] | Some sh \<Rightarrow> header sh)
      in case list_index ut_header ''Apartment Code'' of None \<Rightarrow> Inr item
         | Some ut_code_col \<Rightarrow>
         (case list_index ut_header ''Date of Reading'' of None \<Rightarrow> Inr item
          | Some ut_date_col \<Rightarrow>
            (case manual_ut P ut_code_col ut_date_col code ut_data None of
               Inl e \<Rightarrow> Inl e
             | Inr None \<Rightarrow> Inr item
             | Inr (Some last_ut_date) \<Rightarrow>
                 Inr (item\<lparr> last_ut_reading_date := Some (isoformat last_ut_date) \<rparr>))))"

text \<open>The task that \<open>add_manual_item\<close> creates, before the context look-ups.\<close>

definition manual_item :: "all_data \<Rightarrow> string \<Rightarrow> date option \<Rightarrow> todo_item" where
  "manual_item sheets code due =
     (let realtor_name =
            (case get_apartment_data sheets code of
               None \<Rightarrow> Some ''Unknown''
             | Some apartment_data \<Rightarrow>
                 (case apartment_data ''REALTOR'' of None \<Rightarrow> Some ''Unknown'' | Some v \<Rightarrow> v));
          rsn = ''Manually added''
                @ (case due of None \<Rightarrow> [] | Some d \<Rightarrow> '' - Due on '' @ strftime_d_b d)
      in (create_todo_item code rsn (map_option isoformat due) realtor_name ''Pending'')
           \<lparr> manual := True \<rparr>)"

text \<open>
  \<open>add_manual_item\<close>: \<open>Inr (False, m)\<close> is the rejection, \<open>Inr (True, m')\<close> the success,
  \<open>Inl\<close> an exception that leaves the function.
\<close>

definition add_manual_item ::
  "strptime \<Rightarrow> all_data \<Rightarrow> string \<Rightarrow> date option \<Rightarrow> manager \<Rightarrow> py_error + bool \<times> manager" where
  "add_manual_item P sheets code due m =
     (let key = code @ or_empty (map_option isoformat due) in
      if list_ex (\<lambda>item. item_key item = key) (todo_list m) then Inr (False, m)
      else
        (case manual_mo_context P sheets code (manual_item sheets code due) of
           Inl e \<Rightarrow> Inl e
         | Inr item1 \<Rightarrow>
             (case manual_ut_context P sheets code item1 of
                Inl e \<Rightarrow> Inl e
              | Inr item \<Rightarrow>
                  Inr (True, m\<lparr> todo_list := sort_list (todo_list m @ [item]) \<rparr>))))"

section \<open>Predicates used in the statements\<close>

text \<open>
  \<open>mo_rows_readable\<close>, \<open>ut_rows_readable\<close>: the rows of \<open>MO_DATA\<close> and of \<open>UT_DATA\<close>
  that \<open>add_manual_item\<close> reads for a code (the rows whose stripped code cell is the
  code, once the columns are found) are long enough for the date and type cells it reads.
  \<open>added_task\<close>: what is common to every task \<open>add_manual_item\<close> appends.
  \<open>user_part\<close>: a task without its context annotations.
\<close>

definition mo_rows_readable :: "all_data \<Rightarrow> string \<Rightarrow> bool" where
  "mo_rows_readable sheets code =
     (case sheets ''MO_DATA'' of
        None \<Rightarrow> True
      | Some sh \<Rightarrow>
          (let mo_header_upper = map (\<lambda>h. upper (strip h)) (header sh) in
           case list_index mo_header_upper ''APARTMENT CODE'' of None \<Rightarrow> True
           | Some mo_code_col \<Rightarrow>
           (case list_index mo_header_upper ''SUBMISSION DATE'' of None \<Rightarrow> True
            | Some mo_date_col \<Rightarrow>
            (case list_index mo_header_upper ''TYPE OF MONEY TASK'' of None \<Rightarrow> True
             | Some mo_type_col \<Rightarrow>
                 list_all
                   (\<lambda>row. length row > mo_code_col \<and> strip (row ! mo_code_col) = code
                      \<longrightarrow> mo_date_col < length row \<and> mo_type_col < length row)
                   (data sh)))))"

definition ut_rows_readable :: "all_data \<Rightarrow> string \<Rightarrow> bool" where
  "ut_rows_readable sheets code =
     (case sheets ''UT_DATA'' of
        None \<Rightarrow> True
      | Some sh \<Rightarrow>
          (case list_index (header sh) ''Apartment Code'' of None \<Rightarrow> True
           | Some ut_code_col \<Rightarrow>
           (case list_index (header sh) ''Date of Reading'' of None \<Rightarrow> True
            | Some ut_date_col \<Rightarrow>
                list_all
                  (\<lambda>row. length row > ut_code_col \<and> strip (row ! ut_code_col) = code
                     \<longrightarrow> ut_date_col < length row)
                  (data sh))))"

definition added_task :: "string \<Rightarrow> date option \<Rightarrow> todo_item \<Rightarrow> bool" where
  "added_task code due item =
     (ap_code item = code \<and> due_date item = map_option isoformat due \<and> manual item
      \<and> status item = ''Pending'' \<and> \<not> all_checked item \<and> note_text item = []
      \<and> check_time item = None)"

definition user_part :: "todo_item \<Rightarrow> todo_item" where
  "user_part item =
     item\<lparr> last_transaction_date := None, last_transaction_type := None,
           last_ut_reading_date := None \<rparr>"

text \<open>
  \<open>mutable_fields\<close>: the three user-owned fields of a task. \<open>derived_fresh\<close>: a task as
  \<open>_create_todo_item\<close> leaves these fields, and not manual. \<open>carried old k\<close>: the
  user-owned fields that the merge gives a derived task of key \<open>k\<close>.
\<close>

definition mutable_fields :: "todo_item \<Rightarrow> string \<times> (string \<times> bool) list \<times> string option" where
  "mutable_fields item = (note_text item, checked item, check_time item)"

definition derived_fresh :: "todo_item \<Rightarrow> bool" where
  "derived_fresh item =
     (\<not> manual item
      \<and> mutable_fields item = mutable_fields (create_todo_item [] [] None None []))"

definition carried :: "todo_item list \<Rightarrow> string \<Rightarrow> string \<times> (string \<times> bool) list \<times> string option" where
  "carried old k =
     (case map_of (build_old_state old []) k of
        None \<Rightarrow> mutable_fields (create_todo_item [] [] None None [])
      | Some v \<Rightarrow> mutable_fields v)"

text \<open>
  \<open>payment_matches\<close>: the matching rule in the words of the specification, a rent-related
  payment dated from nine days before the due date to five days after it; it is compared
  below with the search \<open>find_payment\<close> that the code performs.
  \<open>checkout_due\<close>: a row that reaches block B of the loop with a date of the window: it has
  a code, the last transaction of the apartment is not a check-out, and its contract end
  or its check-out date parses to a date of the window.
  \<open>rent_status\<close>: the status the matching rule gives the rent task of a due date.
  \<open>derived_by_rule\<close>: a task that is a Check-out task or a rent task of a due date of the
  window whose status is the one of the rule, for the transactions of its apartment.
\<close>

definition payment_matches :: "date \<Rightarrow> trans \<Rightarrow> bool" where
  "payment_matches due t =
     (is_rent_payment t \<and> due - 9 \<le> trans_date t \<and> trans_date t \<le> due + 5)"

definition checkout_due ::
  "strptime \<Rightarrow> ap_cols \<Rightarrow> (string \<Rightarrow> trans list) \<Rightarrow> date \<Rightarrow> date \<Rightarrow> string \<Rightarrow> string list
     \<Rightarrow> bool" where
  "checkout_due P cols transactions start_date end_date code row =
     (cell row (ap_code_col cols) = Some code \<and> code \<noteq> [] \<and> \<not> vacated (transactions code)
      \<and> list_ex (in_window start_date end_date) (checkout_dates_to_check P cols row))"

definition rent_status :: "trans list \<Rightarrow> date \<Rightarrow> string" where
  "rent_status ts due = (if \<exists>t\<in>set ts. payment_matches due t then ''Paid'' else ''Unpaid'')"

definition derived_by_rule ::
  "(string \<Rightarrow> trans list) \<Rightarrow> date \<Rightarrow> date \<Rightarrow> todo_item \<Rightarrow> bool" where
  "derived_by_rule transactions start_date end_date item =
     (status item = ''Check-out''
      \<or> (\<exists>due. in_window start_date end_date due \<and> due_date item = Some (isoformat due)
            \<and> status item = rent_status (transactions (ap_code item)) due))"

section \<open>Concrete inputs\<close>

text \<open>The tasks, sheets and managers at which the theorems below are instantiated.\<close>

definition undated_task :: todo_item where
  "undated_task =
     (create_todo_item ''A1'' ''Manually added'' None (Some ''Ann'') ''Pending'')
       \<lparr> manual := True \<rparr>"

definition dated_task :: todo_item where
  "dated_task =
     create_todo_item ''A2'' ''Rent due on 15-Jun (UNPAID)'' (Some ''2024-06-15'')
       (Some ''Ann'') ''Unpaid''"

definition trashed_task :: todo_item where
  "trashed_task = dated_task\<lparr> note_text := ''called the tenant'' \<rparr>"


definition example_sheets :: all_data where
  "example_sheets = map_of [
     (''APARTMENTS'',
        \<lparr> header = [''AP CODE'', ''START'', ''END'', ''REALTOR'', ''CHECK_OUT''],
          data = [[''A1'', ''15-01-2024'', ''15-06-2024'', ''Ann'', []]] \<rparr>),
     (''MO_DATA'',
        \<lparr> header = [''Apartment Code'', ''Submission Date'', ''Type of money task'',
                    ''Specific money task''],
          data = [] \<rparr>),
     (''UT_DATA'', \<lparr> header = [''Apartment Code'', ''Date of Reading''], data = [] \<rparr>)]"

definition empty_manager :: manager where
  "empty_manager = \<lparr> todo_list = [], trash_bin = [] \<rparr>"

definition june_start :: date where
  "june_start = ymd2ord 2024 6 1"

definition june_end :: date where
  "june_end = ymd2ord 2024 6 30"

definition paid_sheets :: all_data where
  "paid_sheets = map_of [
     (''APARTMENTS'',
        \<lparr> header = [''AP CODE'', ''START'', ''END'', ''REALTOR'', ''CHECK_OUT''],
          data = [[''A1'', ''15-01-2024'', ''31-12-2024'', ''Ann'', []]] \<rparr>),
     (''MO_DATA'',
        \<lparr> header = [''Apartment Code'', ''Submission Date'', ''Type of money task'',
                    ''Specific money task''],
          data = [[''A1'', ''10/06/2024'', ''CHECK-IN'', []]] \<rparr>),
     (''UT_DATA'',
        \<lparr> header = [''Apartment Code'', ''Date of Reading''],
          data = [[''A1'', ''01/06/2024'']] \<rparr>)]"



definition manual_manager :: manager where
  "manual_manager = \<lparr> todo_list = [undated_task], trash_bin = [] \<rparr>"

definition paid_task :: todo_item where
  "paid_task =
     (create_todo_item ''A1'' ''Rent due 15-Jun, Paid on 10-Jun'' (Some ''2024-06-15'')
        (Some ''Ann'') ''Paid'')
       \<lparr> last_transaction_date := Some ''2024-06-10'',
         last_transaction_type := Some ''CHECK-IN'',
         last_ut_reading_date := Some ''2024-06-01'' \<rparr>"

definition AP_HEADER :: "string list" where
  "AP_HEADER = [''AP CODE'', ''START'', ''END'', ''REALTOR'', ''CHECK_OUT'']"

definition MO_HEADER :: "string list" where
  "MO_HEADER = [''Apartment Code'', ''Submission Date'', ''Type of money task'',
                ''Specific money task'']"

definition UT_HEADER :: "string list" where
  "UT_HEADER = [''Apartment Code'', ''Date of Reading'']"

definition sheets_of :: "string list \<Rightarrow> string list list \<Rightarrow> string list list \<Rightarrow> all_data" where
  "sheets_of ap_header ap_rows mo_rows = map_of [
     (''APARTMENTS'', \<lparr> header = ap_header, data = ap_rows \<rparr>),
     (''MO_DATA'', \<lparr> header = MO_HEADER, data = mo_rows \<rparr>),
     (''UT_DATA'', \<lparr> header = UT_HEADER, data = [] \<rparr>)]"

definition no_checkout_sheets :: all_data where
  "no_checkout_sheets =
     sheets_of [''AP CODE'', ''START'', ''END'', ''REALTOR'']
       [[''A1'', ''15-01-2024'', ''31-12-2024'', ''Ann'']] []"

definition std_cols :: ap_cols where
  "std_cols = \<lparr> ap_code_col = 0, ap_start_col = 1, ap_end_col = 2, ap_realtor_col = 3,
                ap_checkout_col = 4 \<rparr>"

definition end_only_row :: "string list" where
  "end_only_row = [''A2'', [], ''20-06-2024'', ''Bob'', ''05.07.2024'']"

definition vacated_mo_row :: "string list" where
  "vacated_mo_row = [''A2'', ''18/06/2024'', ''Check-out'', []]"

definition both_dates_row :: "string list" where
  "both_dates_row = [''A2'', [], ''20-06-2024'', ''Bob'', ''25.06.2024'']"

definition key_status :: "todo_item \<Rightarrow> string \<times> string option \<times> string" where
  "key_status item = (ap_code item, due_date item, status item)"



definition ragged_sheets :: all_data where
  "ragged_sheets = map_of [
     (''APARTMENTS'',
        \<lparr> header = AP_HEADER, data = [[''A1'', ''15-01-2024'', ''31-12-2024'', ''Ann'']] \<rparr>),
     (''MO_DATA'',
        \<lparr> header = MO_HEADER, data = [[''A1'', ''10/06/2024'', ''CHECK-IN''], [''A2'']] \<rparr>),
     (''UT_DATA'', \<lparr> header = UT_HEADER, data = [[''A1'', ''01/06/2024''], [''A2'']] \<rparr>)]"

definition busy_manager :: manager where
  "busy_manager = \<lparr> todo_list = [dated_task, undated_task], trash_bin = [trashed_task] \<rparr>"

definition added_june_task :: todo_item where
  "added_june_task =
     (create_todo_item ''A1'' ''Manually added - Due on 20-Jun'' (Some ''2024-06-20'')
        (Some ''Ann'') ''Pending'')
       \<lparr> manual := True,
         last_transaction_date := Some ''2024-06-10'',
         last_transaction_type := Some ''CHECK-IN'',
         last_ut_reading_date := Some ''2024-06-01'' \<rparr>"

definition rent_sheets :: "string list list \<Rightarrow> all_data" where
  "rent_sheets mo_rows =
     sheets_of AP_HEADER [[''A1'', ''15-01-2024'', ''31-12-2024'', ''Ann'', []]] mo_rows"

section \<open>Properties\<close>

lemma set_sort_list: "set (sort_list xs) = set xs"
  by (simp add: sort_list_def)

subsection \<open>Sorting\<close>

lemma mset_sort_list: "mset (sort_list xs) = mset xs"
  by (simp add: sort_list_def)


lemma sort_list_pair:
  "sort_list [a, b] = (if sort_item_key a \<le> sort_item_key b then [a, b] else [b, a])"
  by (simp add: sort_list_def)

text \<open>
  Claim C5 (sort order). The claim wants, among tasks of the same completeness, a task
  with no \<open>due_date\<close> before a task with one, and so does the docstring of
  \<open>_sort_list\<close>. The second component of the key is \<open>due_date is None\<close>, which is \<open>True\<close>
  for the undated task, and \<open>False < True\<close>: of two tasks of the same completeness
  given with the undated one first, \<open>_sort_list\<close> puts the dated one first.
\<close>

theorem sort_list_dated_before_undated:
  assumes "all_checked a = all_checked b" and "due_date a = None" and "due_date b \<noteq> None"
  shows "sort_list [a, b] = [b, a]"
  using assms by (auto simp add: sort_list_pair sort_item_key_def less_eq_prod_def)

theorem sort_list_dated_before_undated_witness:
  "\<not> all_checked undated_task \<and> \<not> all_checked dated_task
   \<and> due_date undated_task = None \<and> due_date dated_task = Some ''2024-06-15''
   \<and> sort_list [undated_task, dated_task] = [dated_task, undated_task]"
  using sort_list_dated_before_undated [of undated_task dated_task]
  by (simp add: undated_task_def dated_task_def create_todo_item_def all_checked_def)

subsection \<open>Restoring from the trash bin\<close>



subsection \<open>Adding a manual task\<close>

lemma list_index_less: "list_index xs x = Some i \<Longrightarrow> i < length xs"
  by (induction xs arbitrary: i) (auto split: if_splits)

lemma manual_trans_readable:
  assumes "list_all (\<lambda>row. length row > c \<and> strip (row ! c) = code
             \<longrightarrow> d < length row \<and> t < length row) rows"
  shows "\<exists>r. manual_trans P c d t code rows acc = Inr r"
  using assms
  by (induction rows arbitrary: acc) (auto simp add: cell_def)

lemma manual_trans_short_row:
  assumes "\<not> list_all (\<lambda>row. length row > c \<and> strip (row ! c) = code
             \<longrightarrow> d < length row \<and> t < length row) rows"
  shows "manual_trans P c d t code rows acc = Inl IndexError"
  using assms
  by (induction rows arbitrary: acc) (auto simp add: cell_def)

lemma manual_ut_readable:
  assumes "list_all (\<lambda>row. length row > c \<and> strip (row ! c) = code \<longrightarrow> d < length row) rows"
  shows "\<exists>r. manual_ut P c d code rows acc = Inr r"
  using assms
  by (induction rows arbitrary: acc) (auto simp add: cell_def)

lemma manual_ut_short_row:
  assumes "\<not> list_all (\<lambda>row. length row > c \<and> strip (row ! c) = code \<longrightarrow> d < length row) rows"
  shows "manual_ut P c d code rows acc = Inl IndexError"
  using assms
  by (induction rows arbitrary: acc) (auto simp add: cell_def)

lemma manual_mo_context_fields:
  "manual_mo_context P sheets code item = Inr item' \<Longrightarrow> user_part item' = user_part item"
  unfolding manual_mo_context_def Let_def user_part_def
  by (auto split: option.splits sum.splits list.splits)

lemma manual_ut_context_fields:
  "manual_ut_context P sheets code item = Inr item' \<Longrightarrow> user_part item' = user_part item"
  unfolding manual_ut_context_def Let_def user_part_def
  by (auto split: option.splits sum.splits list.splits prod.splits)

lemma added_task_user_part:
  assumes h: "user_part a = user_part b"
  shows "added_task code due a = added_task code due b"
proof -
  have "ap_code a = ap_code (user_part a)" "due_date a = due_date (user_part a)"
    "manual a = manual (user_part a)" "status a = status (user_part a)"
    "checked a = checked (user_part a)" "note_text a = note_text (user_part a)"
    "check_time a = check_time (user_part a)"
    by (simp_all add: user_part_def)
  moreover have "ap_code b = ap_code (user_part b)" "due_date b = due_date (user_part b)"
    "manual b = manual (user_part b)" "status b = status (user_part b)"
    "checked b = checked (user_part b)" "note_text b = note_text (user_part b)"
    "check_time b = check_time (user_part b)"
    by (simp_all add: user_part_def)
  ultimately show ?thesis
    using h by (simp add: added_task_def all_checked_def)
qed

lemma added_task_manual_item: "added_task code due (manual_item sheets code due)"
  by (simp add: added_task_def manual_item_def Let_def create_todo_item_def all_checked_def)

lemma realtor_user_part: "user_part a = user_part b \<Longrightarrow> realtor a = realtor b"
proof -
  assume h: "user_part a = user_part b"
  have "realtor a = realtor (user_part a)" "realtor b = realtor (user_part b)"
    by (simp_all add: user_part_def)
  then show ?thesis using h by simp
qed

lemma realtor_manual_item:
  "realtor (manual_item sheets code due) =
     (case get_apartment_data sheets code of
        None \<Rightarrow> Some ''Unknown''
      | Some apartment_data \<Rightarrow>
          (case apartment_data ''REALTOR'' of None \<Rightarrow> Some ''Unknown'' | Some v \<Rightarrow> v))"
  by (simp add: manual_item_def Let_def create_todo_item_def)

lemma manual_mo_context_result:
  "(mo_rows_readable sheets code \<longrightarrow> (\<exists>r. manual_mo_context P sheets code item = Inr r))
   \<and> (\<not> mo_rows_readable sheets code \<longrightarrow>
         manual_mo_context P sheets code item = Inl IndexError)"
proof (cases "sheets ''MO_DATA''")
  case None
  then show ?thesis by (simp add: manual_mo_context_def mo_rows_readable_def)
next
  case (Some sh)
  let ?h = "map (\<lambda>h. upper (strip h)) (header sh)"
  show ?thesis
  proof (cases "list_index ?h ''APARTMENT CODE''")
    case None
    then show ?thesis by (simp add: manual_mo_context_def mo_rows_readable_def Some)
  next
    case c: (Some c)
    show ?thesis
    proof (cases "list_index ?h ''SUBMISSION DATE''")
      case None
      then show ?thesis by (simp add: manual_mo_context_def mo_rows_readable_def Some c)
    next
      case d: (Some d)
      show ?thesis
      proof (cases "list_index ?h ''TYPE OF MONEY TASK''")
        case None
        then show ?thesis by (simp add: manual_mo_context_def mo_rows_readable_def Some c d)
      next
        case t: (Some t)
        let ?ok = "list_all (\<lambda>row. length row > c \<and> strip (row ! c) = code
             \<longrightarrow> d < length row \<and> t < length row) (data sh)"
        have rd: "mo_rows_readable sheets code = ?ok"
          by (simp add: mo_rows_readable_def Some c d t)
        show ?thesis
        proof (cases ?ok)
          case True
          obtain r where r: "manual_trans P c d t code (data sh) [] = Inr r"
            using manual_trans_readable [OF True] by blast
          have "\<exists>r'. manual_mo_context P sheets code item = Inr r'"
            by (cases "sort_desc r") (simp_all add: manual_mo_context_def Some c d t r)
          then show ?thesis
            using True rd by simp
        next
          case False
          have "manual_trans P c d t code (data sh) [] = Inl IndexError"
            using manual_trans_short_row [OF False] .
          then have "manual_mo_context P sheets code item = Inl IndexError"
            by (simp add: manual_mo_context_def Some c d t)
          then show ?thesis
            using False rd by simp
        qed
      qed
    qed
  qed
qed

lemma manual_ut_context_result:
  "(ut_rows_readable sheets code \<longrightarrow> (\<exists>r. manual_ut_context P sheets code item = Inr r))
   \<and> (\<not> ut_rows_readable sheets code \<longrightarrow>
         manual_ut_context P sheets code item = Inl IndexError)"
proof (cases "sheets ''UT_DATA''")
  case None
  then show ?thesis by (simp add: manual_ut_context_def ut_rows_readable_def)
next
  case (Some sh)
  show ?thesis
  proof (cases "list_index (header sh) ''Apartment Code''")
    case None
    then show ?thesis by (simp add: manual_ut_context_def ut_rows_readable_def Some)
  next
    case c: (Some c)
    show ?thesis
    proof (cases "list_index (header sh) ''Date of Reading''")
      case None
      then show ?thesis by (simp add: manual_ut_context_def ut_rows_readable_def Some c)
    next
      case d: (Some d)
      let ?ok = "list_all (\<lambda>row. length row > c \<and> strip (row ! c) = code
           \<longrightarrow> d < length row) (data sh)"
      have rd: "ut_rows_readable sheets code = ?ok"
        by (simp add: ut_rows_readable_def Some c d)
      show ?thesis
      proof (cases ?ok)
        case True
        obtain r where r: "manual_ut P c d code (data sh) None = Inr r"
          using manual_ut_readable [OF True] by blast
        have "\<exists>r'. manual_ut_context P sheets code item = Inr r'"
          by (cases r) (simp_all add: manual_ut_context_def Some c d r)
        then show ?thesis
          using True rd by simp
      next
        case False
        have "manual_ut P c d code (data sh) None = Inl IndexError"
          using manual_ut_short_row [OF False] .
        then have "manual_ut_context P sheets code item = Inl IndexError"
          by (simp add: manual_ut_context_def Some c d)
        then show ?thesis
          using False rd by simp
      qed
    qed
  qed
qed

text \<open>
  Claim C9 (manual insertion). The claim gives two causes of rejection: the key is
  already in the active list, or the apartment code is unknown. The code rejects for
  the first cause only; for a code that \<open>APARTMENTS\<close> does not have it still appends
  the task, with realtor \<open>Unknown\<close>. This concrete call shows it.
\<close>

theorem add_manual_item_unknown_apartment:
  "get_apartment_data example_sheets ''ZZ'' = None
   \<and> add_manual_item strptime_padded example_sheets ''ZZ'' None empty_manager
     = Inr (True, \<lparr> todo_list =
          [(create_todo_item ''ZZ'' ''Manually added'' None (Some ''Unknown'') ''Pending'')
             \<lparr> manual := True \<rparr>], trash_bin = [] \<rparr>)"
  by code_simp

text \<open>
  Claim C9 as amended. \<open>add_manual_item\<close> returns the failure result, and leaves the
  manager as it was, when some active task has the key \<open>code + (ISO due date or '')\<close>.
  When no task has it, the call never returns the failure result: every result it returns
  is a success whose active list is the old one with one new task appended and sorted,
  the old tasks all there and unchanged; the new task is manual, \<open>Pending\<close>, with the
  given code and due date, and its realtor is \<open>Unknown\<close> when \<open>APARTMENTS\<close> has no row for
  the code, and the \<open>REALTOR\<close> entry of the row otherwise. It does return when the rows of
  \<open>MO_DATA\<close> and \<open>UT_DATA\<close> it reads for the code have their date and type cells; what it
  does on a shorter row is not part of the statement.
\<close>

theorem add_manual_item_amended:
  "(list_ex (\<lambda>item. item_key item = code @ or_empty (map_option isoformat due)) (todo_list m)
      \<longrightarrow> add_manual_item P sheets code due m = Inr (False, m))
   \<and> (\<not> list_ex (\<lambda>item. item_key item = code @ or_empty (map_option isoformat due)) (todo_list m)
      \<longrightarrow> (\<forall>ok m'. add_manual_item P sheets code due m = Inr (ok, m') \<longrightarrow>
             ok \<and> (\<exists>item. added_task code due item
                     \<and> (get_apartment_data sheets code = None
                          \<longrightarrow> realtor item = Some ''Unknown'')
                     \<and> (\<forall>apartment_data. get_apartment_data sheets code = Some apartment_data
                          \<longrightarrow> realtor item =
                               (case apartment_data ''REALTOR'' of
                                  None \<Rightarrow> Some ''Unknown'' | Some v \<Rightarrow> v))
                     \<and> m' = m\<lparr> todo_list := sort_list (todo_list m @ [item]) \<rparr>
                     \<and> mset (todo_list m') = mset (todo_list m) + {#item#}))
          \<and> (mo_rows_readable sheets code \<and> ut_rows_readable sheets code
               \<longrightarrow> (\<exists>m'. add_manual_item P sheets code due m = Inr (True, m'))))"
proof -
  let ?present = "list_ex (\<lambda>item. item_key item = code @ or_empty (map_option isoformat due))
      (todo_list m)"
  have A: "add_manual_item P sheets code due m = Inr (False, m)" if "?present"
    using that by (simp add: add_manual_item_def)
  have B: "ok \<and> (\<exists>item. added_task code due item
                     \<and> (get_apartment_data sheets code = None
                          \<longrightarrow> realtor item = Some ''Unknown'')
                     \<and> (\<forall>apartment_data. get_apartment_data sheets code = Some apartment_data
                          \<longrightarrow> realtor item =
                               (case apartment_data ''REALTOR'' of
                                  None \<Rightarrow> Some ''Unknown'' | Some v \<Rightarrow> v))
                     \<and> m' = m\<lparr> todo_list := sort_list (todo_list m @ [item]) \<rparr>
                     \<and> mset (todo_list m') = mset (todo_list m) + {#item#})"
    if absent: "\<not> ?present" and res: "add_manual_item P sheets code due m = Inr (ok, m')"
    for ok m'
  proof -
    from absent res obtain item1 item where
      c1: "manual_mo_context P sheets code (manual_item sheets code due) = Inr item1"
      and c2: "manual_ut_context P sheets code item1 = Inr item"
      and r: "ok" "m' = m\<lparr> todo_list := sort_list (todo_list m @ [item]) \<rparr>"
      by (auto simp add: add_manual_item_def Let_def split: sum.splits)
    have u: "user_part item = user_part (manual_item sheets code due)"
      using manual_mo_context_fields [OF c1] manual_ut_context_fields [OF c2] by simp
    then have t: "added_task code due item"
      using added_task_manual_item added_task_user_part by blast
    have rl: "realtor item =
        (case get_apartment_data sheets code of
           None \<Rightarrow> Some ''Unknown''
         | Some apartment_data \<Rightarrow>
             (case apartment_data ''REALTOR'' of None \<Rightarrow> Some ''Unknown'' | Some v \<Rightarrow> v))"
      using realtor_user_part [OF u] by (simp add: realtor_manual_item)
    have r1: "get_apartment_data sheets code = None \<longrightarrow> realtor item = Some ''Unknown''"
      using rl by simp
    have r2: "\<forall>apartment_data. get_apartment_data sheets code = Some apartment_data
        \<longrightarrow> realtor item =
              (case apartment_data ''REALTOR'' of None \<Rightarrow> Some ''Unknown'' | Some v \<Rightarrow> v)"
      using rl by simp
    have ms: "mset (todo_list m') = mset (todo_list m) + {#item#}"
      using r(2) by (simp add: mset_sort_list)
    show ?thesis
    proof (intro conjI exI)
      show "ok" by (rule r(1))
      show "added_task code due item" by (rule t)
      show "get_apartment_data sheets code = None \<longrightarrow> realtor item = Some ''Unknown''"
        by (rule r1)
      show "\<forall>apartment_data. get_apartment_data sheets code = Some apartment_data
        \<longrightarrow> realtor item =
              (case apartment_data ''REALTOR'' of None \<Rightarrow> Some ''Unknown'' | Some v \<Rightarrow> v)"
        by (rule r2)
      show "m' = m\<lparr> todo_list := sort_list (todo_list m @ [item]) \<rparr>" by (rule r(2))
      show "mset (todo_list m') = mset (todo_list m) + {#item#}" by (rule ms)
    qed
  qed
  have C: "\<exists>m'. add_manual_item P sheets code due m = Inr (True, m')"
    if absent: "\<not> ?present"
      and c: "mo_rows_readable sheets code \<and> ut_rows_readable sheets code"
  proof -
    obtain item1 where
      c1: "manual_mo_context P sheets code (manual_item sheets code due) = Inr item1"
      using manual_mo_context_result c by blast
    obtain item where c2: "manual_ut_context P sheets code item1 = Inr item"
      using manual_ut_context_result c by blast
    show ?thesis
      using absent c1 c2 by (simp add: add_manual_item_def Let_def)
  qed
  show ?thesis
    using A B C by blast
qed

theorem add_manual_item_amended_witness:
  "add_manual_item strptime_padded ragged_sheets ''A1'' None busy_manager
     = Inr (False, busy_manager)
   \<and> add_manual_item strptime_padded ragged_sheets ''A1'' (Some (ymd2ord 2024 6 20)) busy_manager
     = Inr (True, busy_manager\<lparr> todo_list := [dated_task, added_june_task, undated_task] \<rparr>)
   \<and> add_manual_item strptime_padded ragged_sheets ''ZZ'' None busy_manager
     = Inr (True, busy_manager\<lparr> todo_list :=
         [dated_task, undated_task,
          (create_todo_item ''ZZ'' ''Manually added'' None (Some ''Unknown'') ''Pending'')
            \<lparr> manual := True \<rparr>] \<rparr>)"
proof -
  let ?dup = "\<lambda>code due. list_ex (\<lambda>item. item_key item = code @ or_empty (map_option isoformat due))
      (todo_list busy_manager)"
  have d1: "?dup ''A1'' None"
    by code_simp
  have d2: "\<not> ?dup ''A1'' (Some (ymd2ord 2024 6 20))"
    by code_simp
  have d3: "\<not> ?dup ''ZZ'' None"
    by code_simp
  have r2: "mo_rows_readable ragged_sheets ''A1'' \<and> ut_rows_readable ragged_sheets ''A1''"
    by code_simp
  have r3: "mo_rows_readable ragged_sheets ''ZZ'' \<and> ut_rows_readable ragged_sheets ''ZZ''"
    by code_simp
  have a: "add_manual_item strptime_padded ragged_sheets ''A1'' None busy_manager
     = Inr (False, busy_manager)"
    using add_manual_item_amended [of "''A1''" None busy_manager strptime_padded ragged_sheets]
      d1 by blast
  obtain m2 where m2: "add_manual_item strptime_padded ragged_sheets ''A1''
      (Some (ymd2ord 2024 6 20)) busy_manager = Inr (True, m2)"
    using add_manual_item_amended [of "''A1''" "Some (ymd2ord 2024 6 20)" busy_manager
        strptime_padded ragged_sheets] d2 r2 by blast
  obtain m3 where m3: "add_manual_item strptime_padded ragged_sheets ''ZZ'' None busy_manager
      = Inr (True, m3)"
    using add_manual_item_amended [of "''ZZ''" None busy_manager strptime_padded ragged_sheets]
      d3 r3 by blast
  have e2: "map_sum id snd (add_manual_item strptime_padded ragged_sheets ''A1''
      (Some (ymd2ord 2024 6 20)) busy_manager)
      = Inr (busy_manager\<lparr> todo_list := [dated_task, added_june_task, undated_task] \<rparr>)"
    by code_simp
  have e3: "map_sum id snd (add_manual_item strptime_padded ragged_sheets ''ZZ'' None busy_manager)
      = Inr (busy_manager\<lparr> todo_list :=
         [dated_task, undated_task,
          (create_todo_item ''ZZ'' ''Manually added'' None (Some ''Unknown'') ''Pending'')
            \<lparr> manual := True \<rparr>] \<rparr>)"
    by code_simp
  have b: "add_manual_item strptime_padded ragged_sheets ''A1'' (Some (ymd2ord 2024 6 20))
      busy_manager
     = Inr (True, busy_manager\<lparr> todo_list := [dated_task, added_june_task, undated_task] \<rparr>)"
    using e2 unfolding m2 by simp
  have c: "add_manual_item strptime_padded ragged_sheets ''ZZ'' None busy_manager
     = Inr (True, busy_manager\<lparr> todo_list :=
         [dated_task, undated_task,
          (create_todo_item ''ZZ'' ''Manually added'' None (Some ''Unknown'') ''Pending'')
            \<lparr> manual := True \<rparr>] \<rparr>)"
    using e3 unfolding m3 by simp
  show ?thesis
    by (rule conjI [OF a conjI [OF b c]])
qed

text \<open>
  The case the amended claim leaves out: a row of \<open>MO_DATA\<close> or \<open>UT_DATA\<close> of the apartment
  that is too short for a cell the function reads raises \<open>IndexError\<close>, which no handler
  of \<open>add_manual_item\<close> catches.
\<close>

lemma add_manual_item_short_row:
  assumes "\<not> list_ex (\<lambda>item. item_key item = code @ or_empty (map_option isoformat due))
      (todo_list m)"
    and "\<not> (mo_rows_readable sheets code \<and> ut_rows_readable sheets code)"
  shows "add_manual_item P sheets code due m = Inl IndexError"
proof (cases "mo_rows_readable sheets code")
  case False
  then have "manual_mo_context P sheets code (manual_item sheets code due) = Inl IndexError"
    using manual_mo_context_result by blast
  then show ?thesis
    using assms(1) by (simp add: add_manual_item_def Let_def)
next
  case True
  then obtain item1 where
    c1: "manual_mo_context P sheets code (manual_item sheets code due) = Inr item1"
    using manual_mo_context_result by blast
  have "\<not> ut_rows_readable sheets code"
    using True assms(2) by simp
  then have "manual_ut_context P sheets code item1 = Inl IndexError"
    using manual_ut_context_result by blast
  then show ?thesis
    using assms(1) c1 by (simp add: add_manual_item_def Let_def)
qed

lemma add_manual_item_short_row_example:
  "add_manual_item strptime_padded ragged_sheets ''A2'' None busy_manager = Inl IndexError"
  by code_simp

subsection \<open>Reconciliation\<close>

lemma build_old_state_map_of:
  "map_of (build_old_state xs acc) k = Some v \<Longrightarrow>
     map_of acc k = Some v \<or> (v \<in> set xs \<and> item_key v = k)"
proof (induction xs arbitrary: acc)
  case Nil
  then show ?case by simp
next
  case (Cons x xs)
  from Cons.prems have "map_of (build_old_state xs (AList.update (item_key x) x acc)) k = Some v"
    by simp
  from Cons.IH [OF this] show ?case
    by (auto simp add: update_conv' split: if_splits)
qed

lemma build_old_state_dom:
  "fst ` set (build_old_state xs acc) = fst ` set acc \<union> item_key ` set xs"
  by (induction xs arbitrary: acc) (auto simp add: dom_update)

lemma distinct_build_old_state:
  "distinct (map fst acc) \<Longrightarrow> distinct (map fst (build_old_state xs acc))"
  by (induction xs arbitrary: acc) (simp_all add: distinct_update)

lemma old_state_lookup:
  "map_of (build_old_state xs []) k = Some v \<Longrightarrow> v \<in> set xs \<and> item_key v = k"
  using build_old_state_map_of [of xs "[]" k v] by simp

lemma old_state_defined:
  assumes "v \<in> set xs"
  shows "\<exists>w. map_of (build_old_state xs []) (item_key v) = Some w"
proof -
  have "item_key v \<in> fst ` set (build_old_state xs [])"
    using assms by (simp add: build_old_state_dom)
  then have "map_of (build_old_state xs []) (item_key v) \<noteq> None"
    by (simp add: map_of_eq_None_iff)
  then show ?thesis by blast
qed

lemma old_state_entries:
  "(k, v) \<in> set (build_old_state xs []) \<longleftrightarrow> map_of (build_old_state xs []) k = Some v"
  using distinct_build_old_state [of "[]" xs] by simp


lemma readd_manual_shape:
  "\<exists>added. readd_manual es F = F @ added
     \<and> set added \<subseteq> snd ` set es
     \<and> (\<forall>v\<in>set added. manual v \<and> ap_code v \<notin> ap_code ` set F)
     \<and> distinct (map ap_code added)"
proof (induction es arbitrary: F)
  case Nil
  then show ?case by simp
next
  case (Cons e es)
  obtain k old_item where e: "e = (k, old_item)" by (cases e)
  show ?case
  proof (cases "manual old_item \<and> \<not> list_ex (\<lambda>x. ap_code x = ap_code old_item) F")
    case True
    obtain added where a: "readd_manual es (F @ [old_item]) = (F @ [old_item]) @ added"
      "set added \<subseteq> snd ` set es"
      "\<forall>v\<in>set added. manual v \<and> ap_code v \<notin> ap_code ` set (F @ [old_item])"
      "distinct (map ap_code added)"
      using Cons.IH [of "F @ [old_item]"] by blast
    have 1: "readd_manual (e # es) F = F @ (old_item # added)"
      using True a(1) e by simp
    have 2: "set (old_item # added) \<subseteq> snd ` set (e # es)"
      using a(2) e by auto
    have 3: "\<forall>v\<in>set (old_item # added). manual v \<and> ap_code v \<notin> ap_code ` set F"
      using True a(3) by (auto simp add: list_ex_iff)
    have 4: "distinct (map ap_code (old_item # added))"
      using a(3) a(4) by auto
    from 1 2 3 4 show ?thesis by blast
  next
    case False
    obtain added where a: "readd_manual es F = F @ added"
      "set added \<subseteq> snd ` set es"
      "\<forall>v\<in>set added. manual v \<and> ap_code v \<notin> ap_code ` set F"
      "distinct (map ap_code added)"
      using Cons.IH [of F] by blast
    have 1: "readd_manual (e # es) F = F @ added"
      using False a(1) e by auto
    have 2: "set added \<subseteq> snd ` set (e # es)"
      using a(2) by auto
    from 1 2 a(3) a(4) show ?thesis by blast
  qed
qed

lemma readd_manual_keeps:
  assumes "v \<in> snd ` set es" and "manual v" and "ap_code v \<notin> ap_code ` set F"
    and "\<forall>w\<in>snd ` set es. manual w \<and> ap_code w = ap_code v \<longrightarrow> w = v"
  shows "v \<in> set (readd_manual es F)"
  using assms
proof (induction es arbitrary: F)
  case Nil
  then show ?case by simp
next
  case (Cons e es)
  obtain k old_item where e: "e = (k, old_item)" by (cases e)
  let ?F' = "if manual old_item \<and> \<not> list_ex (\<lambda>x. ap_code x = ap_code old_item) F
             then F @ [old_item] else F"
  have step: "readd_manual (e # es) F = readd_manual es ?F'"
    using e by simp
  show ?case
  proof (cases "old_item = v")
    case True
    have "\<not> list_ex (\<lambda>x. ap_code x = ap_code v) F"
      using Cons.prems(3) unfolding list_ex_iff image_iff by metis
    with True have "v \<in> set ?F'"
      using Cons.prems(2) by simp
    moreover obtain added where "readd_manual es ?F' = ?F' @ added"
      using readd_manual_shape [of es ?F'] by blast
    ultimately show ?thesis
      using step by simp
  next
    case False
    then have in_es: "v \<in> snd ` set es"
      using Cons.prems(1) e by auto
    have "ap_code old_item \<noteq> ap_code v" if "manual old_item"
      using Cons.prems(4) e False that by auto
    then have notin: "ap_code v \<notin> ap_code ` set ?F'"
      using Cons.prems(3) by auto
    have uniq: "\<forall>w\<in>snd ` set es. manual w \<and> ap_code w = ap_code v \<longrightarrow> w = v"
      using Cons.prems(4) by auto
    from Cons.IH [OF in_es Cons.prems(2) notin uniq] show ?thesis
      using step by simp
  qed
qed

lemma merge_item_key: "item_key (merge_item os d) = item_key d"
  by (simp add: merge_item_def item_key_def split: option.splits)

lemma merge_item_ap_code: "ap_code (merge_item os d) = ap_code d"
  by (simp add: merge_item_def split: option.splits)

lemma merge_item_manual: "manual (merge_item os d) = manual d"
  by (simp add: merge_item_def split: option.splits)

lemma merge_item_mutable:
  "mutable_fields (merge_item os d) =
     (case map_of os (item_key d) of None \<Rightarrow> mutable_fields d | Some old \<Rightarrow> mutable_fields old)"
  by (simp add: merge_item_def mutable_fields_def split: option.splits)

text \<open>The shape of a reconciled list.\<close>

lemma reconcile_shape:
  "\<exists>added. reconcile old D = map (merge_item (build_old_state old [])) D @ added
     \<and> set added \<subseteq> set old
     \<and> (\<forall>v\<in>set added. manual v \<and> ap_code v \<notin> ap_code ` set D
            \<and> map_of (build_old_state old []) (item_key v) = Some v)
     \<and> distinct (map ap_code added)"
proof -
  let ?os = "build_old_state old []"
  obtain added where a: "readd_manual ?os (map (merge_item ?os) D) = map (merge_item ?os) D @ added"
      "set added \<subseteq> snd ` set ?os"
      "\<forall>v\<in>set added. manual v \<and> ap_code v \<notin> ap_code ` set (map (merge_item ?os) D)"
      "distinct (map ap_code added)"
    using readd_manual_shape [of ?os "map (merge_item ?os) D"] by blast
  have entry: "map_of ?os (item_key v) = Some v \<and> v \<in> set old" if "v \<in> set added" for v
  proof -
    from that a(2) obtain k where "(k, v) \<in> set ?os" by force
    then have "map_of ?os k = Some v" by (simp add: old_state_entries)
    then show ?thesis using old_state_lookup by blast
  qed
  have codes: "ap_code ` set (map (merge_item ?os) D) = ap_code ` set D"
    by (simp add: image_image merge_item_ap_code)
  have 1: "reconcile old D = map (merge_item ?os) D @ added"
    using a(1) by (simp add: reconcile_def Let_def)
  have 2: "set added \<subseteq> set old"
    using entry by blast
  have 3: "\<forall>v\<in>set added. manual v \<and> ap_code v \<notin> ap_code ` set D
            \<and> map_of ?os (item_key v) = Some v"
    using a(3) entry codes by blast
  from 1 2 3 a(4) show ?thesis by blast
qed


lemma reconcile_fields_by_key:
  assumes fresh: "\<forall>d\<in>set D. derived_fresh d" and x: "x \<in> set (reconcile old D)"
  shows "mutable_fields x = carried old (item_key x)"
proof -
  let ?os = "build_old_state old []"
  obtain added where sh: "reconcile old D = map (merge_item ?os) D @ added"
      "\<forall>v\<in>set added. manual v \<and> ap_code v \<notin> ap_code ` set D
            \<and> map_of ?os (item_key v) = Some v"
    using reconcile_shape [of old D] by blast
  from x sh(1) consider (derived) d where "d \<in> set D" "x = merge_item ?os d"
    | (kept) "x \<in> set added"
    by auto
  then show ?thesis
  proof cases
    case derived
    have "mutable_fields d = mutable_fields (create_todo_item [] [] None None [])"
      using fresh derived(1) by (simp add: derived_fresh_def)
    then show ?thesis
      using derived(2)
      by (simp add: carried_def merge_item_mutable merge_item_key split: option.splits)
  next
    case kept
    then have "map_of ?os (item_key x) = Some x" using sh(2) by blast
    then show ?thesis by (simp add: carried_def)
  qed
qed

lemma reconcile_twice:
  assumes fresh: "\<forall>d\<in>set D. derived_fresh d" and L1: "set L1 = set (reconcile old D)"
  shows "item_key ` set (reconcile L1 D) = item_key ` set L1"
    and "\<forall>a\<in>set L1. \<forall>b\<in>set (reconcile L1 D).
           item_key a = item_key b \<longrightarrow> mutable_fields a = mutable_fields b"
proof -
  let ?os0 = "build_old_state old []"
  let ?os1 = "build_old_state L1 []"
  obtain added0 where s0: "reconcile old D = map (merge_item ?os0) D @ added0"
      "\<forall>v\<in>set added0. manual v \<and> ap_code v \<notin> ap_code ` set D
            \<and> map_of ?os0 (item_key v) = Some v"
      "distinct (map ap_code added0)"
    using reconcile_shape [of old D] by blast
  obtain added1 where s1: "reconcile L1 D = map (merge_item ?os1) D @ added1"
      "set added1 \<subseteq> set L1"
    using reconcile_shape [of L1 D] by blast
  have notman: "\<not> manual d" if "d \<in> set D" for d
    using fresh that by (simp add: derived_fresh_def)
  have L1_cases: "(\<exists>d\<in>set D. v = merge_item ?os0 d) \<or> v \<in> set added0" if "v \<in> set L1" for v
    using that L1 s0(1) by auto
  have manual_added0: "v \<in> set added0" if "v \<in> set L1" "manual v" for v
    using L1_cases [OF that(1)] that(2) notman by (auto simp add: merge_item_manual)
  have fields1: "mutable_fields v = carried old (item_key v)" if "v \<in> set L1" for v
    using reconcile_fields_by_key [OF fresh] that L1 by blast
  \<comment> \<open>every key of the first result is a key of the second\<close>
  have sub1: "item_key v \<in> item_key ` set (reconcile L1 D)" if v: "v \<in> set L1" for v
  proof -
    obtain w where w: "map_of ?os1 (item_key v) = Some w"
      using old_state_defined [OF v] by blast
    then have wL: "w \<in> set L1" and wk: "item_key w = item_key v"
      using old_state_lookup by blast+
    show ?thesis
    proof (cases "manual w")
      case True
      then have wa: "w \<in> set added0" using manual_added0 wL by blast
      have in_os: "w \<in> snd ` set ?os1"
        using w old_state_entries [of "item_key v" w L1] by force
      have code: "ap_code w \<notin> ap_code ` set (map (merge_item ?os1) D)"
        using wa s0(2) by (simp add: image_image merge_item_ap_code)
      have uniq: "\<forall>u\<in>snd ` set ?os1. manual u \<and> ap_code u = ap_code w \<longrightarrow> u = w"
      proof (intro ballI impI)
        fix u assume u: "u \<in> snd ` set ?os1" and mu: "manual u \<and> ap_code u = ap_code w"
        from u obtain k where "(k, u) \<in> set ?os1" by force
        then have "u \<in> set L1"
          using old_state_entries old_state_lookup by blast
        then have "u \<in> set added0" using manual_added0 mu by blast
        then show "u = w"
          using wa mu s0(3) by (meson distinct_map inj_onD)
      qed
      have "w \<in> set (readd_manual ?os1 (map (merge_item ?os1) D))"
        using readd_manual_keeps [OF in_os True code uniq] .
      then have "w \<in> set (reconcile L1 D)"
        by (simp add: reconcile_def Let_def)
      then show ?thesis using wk by (metis imageI)
    next
      case False
      then obtain d where d: "d \<in> set D" "w = merge_item ?os0 d"
        using L1_cases [OF wL] s0(2) by blast
      then have "item_key d = item_key v"
        using wk by (simp add: merge_item_key)
      moreover have "merge_item ?os1 d \<in> set (reconcile L1 D)"
        using d(1) s1(1) by simp
      ultimately show ?thesis
        by (metis imageI merge_item_key)
    qed
  qed
  \<comment> \<open>and conversely\<close>
  have sub2: "item_key b \<in> item_key ` set L1" if b: "b \<in> set (reconcile L1 D)" for b
  proof -
    from b s1(1) consider (derived) d where "d \<in> set D" "b = merge_item ?os1 d"
      | (kept) "b \<in> set added1"
      by auto
    then show ?thesis
    proof cases
      case derived
      have "merge_item ?os0 d \<in> set L1"
        using derived(1) L1 s0(1) by simp
      then have "item_key (merge_item ?os0 d) \<in> item_key ` set L1" by blast
      then show ?thesis
        using derived(2) by (simp add: merge_item_key)
    next
      case kept
      then show ?thesis using s1(2) by blast
    qed
  qed
  show "item_key ` set (reconcile L1 D) = item_key ` set L1"
    using sub1 sub2 by blast
  show "\<forall>a\<in>set L1. \<forall>b\<in>set (reconcile L1 D).
           item_key a = item_key b \<longrightarrow> mutable_fields a = mutable_fields b"
  proof (intro ballI impI)
    fix a b
    assume a: "a \<in> set L1" and b: "b \<in> set (reconcile L1 D)"
      and key: "item_key a = item_key b"
    from b s1(1) consider (derived) d where "d \<in> set D" "b = merge_item ?os1 d"
      | (kept) "b \<in> set added1"
      by auto
    then have "mutable_fields b = carried old (item_key b)"
    proof cases
      case derived
      have kd: "item_key d = item_key a"
        using derived(2) key by (simp add: merge_item_key)
      obtain w where w: "map_of ?os1 (item_key a) = Some w"
        using old_state_defined [OF a] by blast
      then have "w \<in> set L1" "item_key w = item_key a"
        using old_state_lookup by blast+
      then have "mutable_fields w = carried old (item_key a)"
        using fields1 by metis
      then show ?thesis
        using derived(2) w kd key by (simp add: merge_item_mutable)
    next
      case kept
      then show ?thesis using s1(2) fields1 by blast
    qed
    then show "mutable_fields a = mutable_fields b"
      using fields1 [OF a] key by simp
  qed
qed

lemma fresh_with_context:
  "derived_fresh (with_context ts lu item) = derived_fresh item"
  by (simp add: derived_fresh_def with_context_def mutable_fields_def)

lemma fresh_create: "derived_fresh (create_todo_item code rsn due rltr st)"
  by (simp add: derived_fresh_def create_todo_item_def mutable_fields_def)

lemma fresh_rent_item: "derived_fresh (rent_item code realtor_name ts up lu due)"
  by (simp add: rent_item_def fresh_with_context fresh_create split: option.splits)

lemma fresh_checkout_item: "derived_fresh (checkout_item code realtor_name ts lu d)"
  by (simp add: checkout_item_def fresh_with_context fresh_create)

lemma fresh_rent_items:
  "\<forall>d\<in>set (rent_items P cols row code realtor_name ts up lu s e). derived_fresh d"
  by (auto simp add: rent_items_def fresh_rent_item split: option.splits)

lemma fresh_checkout_loop:
  "\<forall>d\<in>set nl. derived_fresh d \<Longrightarrow>
     \<forall>d\<in>set (checkout_loop code realtor_name ts lu s e ds nl). derived_fresh d"
proof (induction ds arbitrary: nl)
  case Nil
  then show ?case by simp
next
  case (Cons d ds)
  show ?case
    unfolding checkout_loop.simps
    by (rule Cons.IH) (use Cons.prems in \<open>auto simp add: fresh_checkout_item\<close>)
qed

lemma fresh_process_row:
  assumes "\<forall>d\<in>set nl. derived_fresh d"
  shows "\<forall>d\<in>set (process_row P it cols tr lud s e row nl). derived_fresh d"
proof (cases "cell row (ap_code_col cols)")
  case None
  then show ?thesis using assms by (simp add: process_row_def)
next
  case (Some code)
  have loop: "\<forall>d\<in>set (checkout_loop code realtor_name ts lu s e ds
            (nl @ rent_items P cols row code realtor_name ts up lu s e)). derived_fresh d"
    for realtor_name ts lu ds up
    by (rule fresh_checkout_loop) (use assms fresh_rent_items in auto)
  show ?thesis
  proof (cases "code = [] \<or> vacated (tr code)")
    case True
    then show ?thesis using assms Some by (auto simp add: process_row_def Let_def)
  next
    case False
    then show ?thesis using Some loop by (simp add: process_row_def Let_def)
  qed
qed

lemma fresh_derive_rows:
  "\<forall>d\<in>set nl. derived_fresh d \<Longrightarrow>
     \<forall>d\<in>set (derive_rows P it cols tr lud s e rows nl). derived_fresh d"
proof (induction rows arbitrary: nl)
  case Nil
  then show ?case by simp
next
  case (Cons row rows)
  show ?case
    unfolding derive_rows.simps
    by (rule Cons.IH) (rule fresh_process_row [OF Cons.prems])
qed

lemma derive_Some:
  assumes "derive P it sheets s e = Inr (Some D)"
  shows "\<exists>cols tr lud rows. D = derive_rows P it cols tr lud s e rows []"
proof -
  obtain ap where ap: "sheets ''APARTMENTS'' = Some ap"
    using assms by (cases "sheets ''APARTMENTS''") (simp_all add: derive_def)
  obtain mo where mo: "sheets ''MO_DATA'' = Some mo"
    using assms ap by (cases "sheets ''MO_DATA''") (simp_all add: derive_def)
  obtain ut where ut: "sheets ''UT_DATA'' = Some ut"
    using assms ap mo by (cases "sheets ''UT_DATA''") (simp_all add: derive_def)
  obtain mcols where mc: "mo_columns (header mo) = Some mcols"
    using assms ap mo ut by (cases "mo_columns (header mo)") (simp_all add: derive_def)
  obtain uc ud where uc: "ut_columns (header ut) = Some (uc, ud)"
    using assms ap mo ut mc by (cases "ut_columns (header ut)") (auto simp add: derive_def)
  obtain cols where ac: "ap_columns (header ap) = Some cols"
    using assms ap mo ut mc uc by (cases "ap_columns (header ap)") (simp_all add: derive_def)
  have "D = derive_rows P it cols (build_transactions P mcols (data mo))
              (collect_ut P uc ud (data ut) Map.empty) s e (data ap) []"
    using assms ap mo ut mc uc ac by (simp add: derive_def)
  then show ?thesis by blast
qed

lemma fresh_derive:
  assumes "derive P it sheets s e = Inr (Some D)"
  shows "\<forall>d\<in>set D. derived_fresh d"
proof -
  from derive_Some [OF assms] obtain cols tr lud rows
    where "D = derive_rows P it cols tr lud s e rows []"
    by blast
  then show ?thesis
    using fresh_derive_rows [of "[]"] by simp
qed

lemma after_generate_cases:
  "(after_generate P it sheets s e m = m
      \<and> (\<forall>m'. after_generate P it sheets s e m' = m'))
   \<or> (\<exists>D. derive P it sheets s e = Inr (Some D)
        \<and> (\<forall>m'. after_generate P it sheets s e m' =
               m'\<lparr> todo_list := sort_list (reconcile (todo_list m') D) \<rparr>))"
proof (cases "derive P it sheets s e")
  case (Inl err)
  then show ?thesis by (simp add: after_generate_def generate_list_def)
next
  case (Inr r)
  show ?thesis
  proof (cases r)
    case None
    then show ?thesis using Inr by (simp add: after_generate_def generate_list_def)
  next
    case (Some D)
    then show ?thesis using Inr by (simp add: after_generate_def generate_list_def)
  qed
qed



text \<open>
  The run used at the instances: in June 2024 the sheets \<open>paid_sheets\<close> derive one task,
  the rent of apartment A1 due on 15 June, paid on 10 June.
\<close>

lemma derive_paid_sheets:
  "derive strptime_padded remdups paid_sheets june_start june_end = Inr (Some [paid_task])"
  by code_simp



lemma keyed_image_eq:
  assumes keys: "f ` A = f ` B"
    and agree: "\<forall>a\<in>A. \<forall>b\<in>B. f a = f b \<longrightarrow> g a = g b"
  shows "(\<lambda>t. (f t, g t)) ` A = (\<lambda>t. (f t, g t)) ` B"
proof (intro set_eqI iffI)
  fix p assume "p \<in> (\<lambda>t. (f t, g t)) ` A"
  then obtain a where a: "a \<in> A" "p = (f a, g a)" by blast
  then have "f a \<in> f ` B" using keys by blast
  then obtain b where b: "b \<in> B" "f a = f b" by blast
  then have "g a = g b" using agree a(1) by blast
  then show "p \<in> (\<lambda>t. (f t, g t)) ` B" using a(2) b by auto
next
  fix p assume "p \<in> (\<lambda>t. (f t, g t)) ` B"
  then obtain b where b: "b \<in> B" "p = (f b, g b)" by blast
  then have "f b \<in> f ` A" using keys by blast
  then obtain a where a: "a \<in> A" "f a = f b" by (metis imageE)
  then have "g a = g b" using agree b(1) by blast
  then have "p = (f a, g a)" using b(2) a(2) by simp
  then show "p \<in> (\<lambda>t. (f t, g t)) ` A" using a(1) by blast
qed

text \<open>
  Claim C4 (regenerating twice). For any manager and any data source, the active list
  after a second call of \<open>generate_list(start, end)\<close> has the same keys as the list after
  the first call, each with the same \<open>note\<close>, \<open>checked\<close> and \<open>check_time\<close>: the sets of
  (key, note, checked, check_time) of the two lists are equal.
\<close>

theorem generate_list_twice:
  "(\<lambda>t. (item_key t, note_text t, checked t, check_time t))
      ` set (todo_list (after_generate P it sheets start_date end_date
                (after_generate P it sheets start_date end_date m)))
   = (\<lambda>t. (item_key t, note_text t, checked t, check_time t))
      ` set (todo_list (after_generate P it sheets start_date end_date m))"
proof -
  let ?m1 = "after_generate P it sheets start_date end_date m"
  let ?m2 = "after_generate P it sheets start_date end_date ?m1"
  have "(\<lambda>t. (item_key t, mutable_fields t)) ` set (todo_list ?m2)
      = (\<lambda>t. (item_key t, mutable_fields t)) ` set (todo_list ?m1)"
    using after_generate_cases [of P it sheets start_date end_date m]
  proof (elim disjE conjE exE)
    assume "\<forall>m'. after_generate P it sheets start_date end_date m' = m'"
    then show ?thesis by simp
  next
    fix D
    assume D: "derive P it sheets start_date end_date = Inr (Some D)"
      and gen: "\<forall>m'. after_generate P it sheets start_date end_date m' =
               m'\<lparr> todo_list := sort_list (reconcile (todo_list m') D) \<rparr>"
    have fresh: "\<forall>d\<in>set D. derived_fresh d"
      using fresh_derive [OF D] .
    have l1: "set (todo_list ?m1) = set (reconcile (todo_list m) D)"
      using gen by (simp add: set_sort_list)
    have l2: "set (todo_list ?m2) = set (reconcile (todo_list ?m1) D)"
      using gen by (simp add: set_sort_list)
    have k: "item_key ` set (todo_list ?m1) = item_key ` set (todo_list ?m2)"
      using reconcile_twice(1) [OF fresh l1] l2 by simp
    have g: "\<forall>a\<in>set (todo_list ?m1). \<forall>b\<in>set (todo_list ?m2).
        item_key a = item_key b \<longrightarrow> mutable_fields a = mutable_fields b"
      using reconcile_twice(2) [OF fresh l1] l2 by simp
    show ?thesis
      using keyed_image_eq [OF k g] by simp
  qed
  then show ?thesis
    by (simp add: mutable_fields_def)
qed

subsection \<open>Rent due dates and the payment window\<close>

lemma due_dates_loop_eq:
  "due_dates_loop c e p acc = acc @ filter (\<lambda>d. day_of d = p) [c..e]"
proof (induction c e p acc rule: due_dates_loop.induct)
  case (1 c e p acc)
  show ?case
  proof (cases "c \<le> e")
    case True
    then have "[c..e] = c # [c + 1..e]"
      by (simp add: upto_rec1)
    then show ?thesis
      using True "1.IH" by (simp add: due_dates_loop.simps [of c e p acc])
  next
    case False
    then show ?thesis
      by (simp add: due_dates_loop.simps [of c e p acc])
  qed
qed

lemma find_payment_None:
  "find_payment ts due = None \<longleftrightarrow> \<not> (\<exists>t\<in>set ts. payment_matches due t)"
  by (induction ts) (auto simp add: payment_matches_def)

lemma find_payment_Some:
  "find_payment ts due = Some d \<Longrightarrow> \<exists>t\<in>set ts. trans_date t = d \<and> payment_matches due t"
  by (induction ts) (auto simp add: payment_matches_def split: if_splits)

lemma status_with_context: "status (with_context ts lu item) = status item"
  by (simp add: with_context_def)

lemma due_date_with_context: "due_date (with_context ts lu item) = due_date item"
  by (simp add: with_context_def)

lemma ap_code_with_context: "ap_code (with_context ts lu item) = ap_code item"
  by (simp add: with_context_def)

lemma rent_item_status:
  "status (rent_item code realtor_name ts up lu due) =
     (if \<exists>t\<in>set ts. payment_matches due t then ''Paid'' else ''Unpaid'')"
proof (cases "find_payment ts due")
  case None
  then have "\<not> (\<exists>t\<in>set ts. payment_matches due t)"
    by (simp only: find_payment_None simp_thms)
  then show ?thesis
    using None by (simp add: rent_item_def status_with_context create_todo_item_def)
next
  case (Some d)
  then have "\<exists>t\<in>set ts. payment_matches due t"
    using find_payment_Some by blast
  then show ?thesis
    using Some by (simp add: rent_item_def status_with_context create_todo_item_def)
qed

lemma rent_items_are_rent_item:
  assumes "item \<in> set (rent_items P cols row code realtor_name ts up lu start_date end_date)"
  shows "\<exists>due. in_window start_date end_date due
            \<and> item = rent_item code realtor_name ts up lu due"
proof -
  from assms obtain csd where
    "item \<in> set (map (rent_item code realtor_name ts up lu)
        (due_dates_loop start_date end_date (day_of csd) []))"
    by (auto simp add: rent_items_def split: option.splits)
  then obtain due where "due \<in> set [start_date..end_date]"
      "item = rent_item code realtor_name ts up lu due"
    by (auto simp add: due_dates_loop_eq)
  then show ?thesis
    by (auto simp add: in_window_def)
qed

subsection \<open>Check-out tasks\<close>

lemma rent_item_not_checkout: "\<not> is_checkout_of c (rent_item code realtor_name ts up lu due)"
  by (simp add: is_checkout_of_def rent_item_status)

lemma rent_items_not_checkout:
  "filter (is_checkout_of c) (rent_items P cols row code realtor_name ts up lu s e) = []"
proof -
  have "\<not> is_checkout_of c item"
    if "item \<in> set (rent_items P cols row code realtor_name ts up lu s e)" for item
    using rent_items_are_rent_item [OF that] rent_item_not_checkout by blast
  then show ?thesis
    by (simp add: filter_empty_conv)
qed

lemma rent_items_no_checkout:
  "\<not> list_ex (is_checkout_of c) (rent_items P cols row code realtor_name ts up lu s e)"
  using rent_items_not_checkout [of c P cols row code realtor_name ts up lu s e]
  by (simp add: list_ex_iff filter_empty_conv)

lemma checkout_item_fields:
  "ap_code (checkout_item code realtor_name ts lu d) = code"
  "status (checkout_item code realtor_name ts lu d) = ''Check-out''"
  "due_date (checkout_item code realtor_name ts lu d) = Some (isoformat d)"
  by (simp_all add: checkout_item_def with_context_def create_todo_item_def)

lemma checkout_loop_eq:
  "checkout_loop code realtor_name ts lu s e ds nl =
     nl @ (if list_ex (is_checkout_of code) nl then []
           else (case find (in_window s e) ds of
                   None \<Rightarrow> []
                 | Some d \<Rightarrow> [checkout_item code realtor_name ts lu d]))"
proof (induction ds arbitrary: nl)
  case Nil
  then show ?case by simp
next
  case (Cons d ds)
  show ?case
  proof (cases "in_window s e d \<and> \<not> list_ex (is_checkout_of code) nl")
    case True
    have "list_ex (is_checkout_of code) (nl @ [checkout_item code realtor_name ts lu d])"
      by (simp add: is_checkout_of_def checkout_item_fields)
    then show ?thesis
      using True by (simp add: Cons.IH)
  next
    case False
    then show ?thesis
      by (auto simp add: Cons.IH)
  qed
qed

text \<open>What one row adds to the Check-out tasks of a code.\<close>

lemma process_row_prefix:
  "\<exists>extra. process_row P it cols tr lud s e row nl = nl @ extra"
  by (simp add: process_row_def Let_def checkout_loop_eq split: option.splits)

lemma process_row_checkouts:
  "filter (is_checkout_of c) (process_row P it cols tr lud s e row nl) =
     filter (is_checkout_of c) nl
     @ (if cell row (ap_code_col cols) = Some c \<and> c \<noteq> [] \<and> \<not> vacated (tr c)
           \<and> \<not> list_ex (is_checkout_of c) nl
        then (case find (in_window s e) (it (checkout_dates_to_check P cols row)) of
                None \<Rightarrow> []
              | Some d \<Rightarrow>
                  [checkout_item c
                     (case cell row (ap_realtor_col cols) of None \<Rightarrow> ''Unknown'' | Some r \<Rightarrow> r)
                     (tr c) (lud c) d])
        else [])"
proof (cases "cell row (ap_code_col cols)")
  case None
  then show ?thesis by (simp add: process_row_def)
next
  case (Some code)
  show ?thesis
  proof (cases "code = [] \<or> vacated (tr code)")
    case True
    then show ?thesis using Some by (auto simp add: process_row_def Let_def)
  next
    case False
    let ?r = "case cell row (ap_realtor_col cols) of None \<Rightarrow> ''Unknown'' | Some r \<Rightarrow> r"
    let ?rent = "rent_items P cols row code ?r (tr code) (is_upcoming_checkout P cols row s e)
        (lud code) s e"
    have pr: "process_row P it cols tr lud s e row nl =
        checkout_loop code ?r (tr code) (lud code) s e (it (checkout_dates_to_check P cols row))
          (nl @ ?rent)"
      using Some False by (simp add: process_row_def Let_def)
    show ?thesis
    proof (cases "code = c")
      case True
      then show ?thesis
        using Some False
        by (simp add: pr checkout_loop_eq rent_items_no_checkout rent_items_not_checkout
            is_checkout_of_def checkout_item_fields split: option.splits)
    next
      case False
      then have "\<not> is_checkout_of c (checkout_item code r ts lu d)" for r ts lu d
        by (simp add: is_checkout_of_def checkout_item_fields)
      then show ?thesis
        using Some False
        by (simp add: pr checkout_loop_eq rent_items_no_checkout rent_items_not_checkout
            split: option.splits)
    qed
  qed
qed

lemma list_ex_filter: "list_ex Q xs \<longleftrightarrow> filter Q xs \<noteq> []"
  by (simp add: list_ex_iff filter_empty_conv)

lemma derive_rows_checkouts_kept:
  "filter (is_checkout_of c) nl \<noteq> [] \<Longrightarrow>
     filter (is_checkout_of c) (derive_rows P it cols tr lud s e rows nl)
       = filter (is_checkout_of c) nl"
proof (induction rows arbitrary: nl)
  case Nil
  then show ?case by simp
next
  case (Cons row rows)
  have step: "filter (is_checkout_of c) (process_row P it cols tr lud s e row nl)
      = filter (is_checkout_of c) nl"
    using Cons.prems by (simp add: process_row_checkouts list_ex_filter)
  then show ?case
    using Cons.IH [of "process_row P it cols tr lud s e row nl"] Cons.prems by simp
qed

lemma find_in_window:
  assumes "set_iteration it" and "list_ex (in_window s e) ds"
  shows "\<exists>d. find (in_window s e) (it ds) = Some d \<and> d \<in> set ds \<and> in_window s e d"
proof -
  have set: "set (it ds) = set ds"
    using assms(1) by (simp add: set_iteration_def)
  then have "find (in_window s e) (it ds) \<noteq> None"
    using assms(2) by (auto simp add: find_None_iff list_ex_iff)
  then obtain d where d: "find (in_window s e) (it ds) = Some d" by blast
  then have "d \<in> set (it ds)" "in_window s e d"
    by (auto simp add: find_Some_iff)
  then show ?thesis using d set by blast
qed

lemma find_not_in_window:
  assumes "set_iteration it" and "\<not> list_ex (in_window s e) ds"
  shows "find (in_window s e) (it ds) = None"
proof -
  have "set (it ds) = set ds"
    using assms(1) by (simp add: set_iteration_def)
  then show ?thesis
    using assms(2) by (simp add: find_None_iff list_ex_iff)
qed

lemma derive_rows_checkout_once:
  assumes it: "set_iteration it"
    and none: "filter (is_checkout_of c) nl = []"
    and row: "row \<in> set rows" "checkout_due P cols tr s e c row"
  shows "\<exists>row'\<in>set rows. \<exists>d\<in>set (checkout_dates_to_check P cols row'). \<exists>item.
      filter (is_checkout_of c) (derive_rows P it cols tr lud s e rows nl) = [item]
      \<and> checkout_due P cols tr s e c row' \<and> in_window s e d
      \<and> ap_code item = c \<and> status item = ''Check-out'' \<and> due_date item = Some (isoformat d)"
  using none row
proof (induction rows arbitrary: nl)
  case Nil
  then show ?case by simp
next
  case (Cons r rows)
  let ?nl' = "process_row P it cols tr lud s e r nl"
  show ?case
  proof (cases "checkout_due P cols tr s e c r")
    case True
    then obtain d where d: "find (in_window s e) (it (checkout_dates_to_check P cols r)) = Some d"
        "d \<in> set (checkout_dates_to_check P cols r)" "in_window s e d"
      using find_in_window [OF it, of s e "checkout_dates_to_check P cols r"]
      by (auto simp add: checkout_due_def)
    let ?item = "checkout_item c
        (case cell r (ap_realtor_col cols) of None \<Rightarrow> ''Unknown'' | Some x \<Rightarrow> x) (tr c) (lud c) d"
    have f: "filter (is_checkout_of c) ?nl' = [?item]"
      using True Cons.prems(1) d(1)
      by (simp add: process_row_checkouts checkout_due_def list_ex_filter)
    then have "filter (is_checkout_of c) (derive_rows P it cols tr lud s e (r # rows) nl) = [?item]"
      using derive_rows_checkouts_kept [of c ?nl'] by simp
    then show ?thesis
      using True d(2,3) by (auto simp add: checkout_item_fields)
  next
    case False
    have nf: "find (in_window s e) (it (checkout_dates_to_check P cols r)) = None"
      if "cell r (ap_code_col cols) = Some c \<and> c \<noteq> [] \<and> \<not> vacated (tr c)"
      using that False find_not_in_window [OF it] by (simp add: checkout_due_def)
    have f: "filter (is_checkout_of c) ?nl' = []"
    proof (cases "cell r (ap_code_col cols) = Some c \<and> c \<noteq> [] \<and> \<not> vacated (tr c)")
      case True
      show ?thesis
        using True nf [OF True] Cons.prems(1) by (simp add: process_row_checkouts)
    next
      case False
      then show ?thesis
        using Cons.prems(1) by (auto simp add: process_row_checkouts)
    qed
    have "row \<in> set rows"
      using Cons.prems(2,3) False by auto
    from Cons.IH [OF f this Cons.prems(3)] show ?thesis
      by auto
  qed
qed

lemma is_checkout_of_merge_item:
  "is_checkout_of c (merge_item os d) = is_checkout_of c d"
  by (simp add: is_checkout_of_def merge_item_def split: option.splits)

lemma reconcile_checkouts:
  assumes "filter (is_checkout_of c) D = [item]"
  shows "filter (is_checkout_of c) (sort_list (reconcile old D))
     = [merge_item (build_old_state old []) item]"
proof -
  let ?os = "build_old_state old []"
  obtain added where sh: "reconcile old D = map (merge_item ?os) D @ added"
      "\<forall>v\<in>set added. manual v \<and> ap_code v \<notin> ap_code ` set D
            \<and> map_of ?os (item_key v) = Some v"
    using reconcile_shape [of old D] by blast
  have "item \<in> set (filter (is_checkout_of c) D)"
    using assms by simp
  then have d: "item \<in> set D" "ap_code item = c"
    by (simp_all add: is_checkout_of_def)
  have "\<not> is_checkout_of c v" if "v \<in> set added" for v
    using sh(2) that d by (auto simp add: is_checkout_of_def)
  then have a: "filter (is_checkout_of c) added = []"
    by (simp add: filter_empty_conv)
  have m: "filter (is_checkout_of c) (map (merge_item ?os) D)
      = map (merge_item ?os) (filter (is_checkout_of c) D)"
    by (simp add: filter_map comp_def is_checkout_of_merge_item)
  have s: "filter (is_checkout_of c) (sort_list (reconcile old D))
      = sort_list (filter (is_checkout_of c) (reconcile old D))"
    by (simp add: sort_list_def filter_sort)
  have f: "filter (is_checkout_of c) (reconcile old D) = [merge_item ?os item]"
    by (simp add: sh(1) m a assms)
  show ?thesis
    unfolding s f by (simp add: sort_list_def)
qed

subsection \<open>The tasks of a whole call\<close>

lemma derive_loaded:
  assumes "sheets ''APARTMENTS'' = Some ap" and "sheets ''MO_DATA'' = Some mo"
    and "sheets ''UT_DATA'' = Some ut" and "mo_columns (header mo) = Some mcols"
    and "ut_columns (header ut) = Some ucols" and "ap_columns (header ap) = Some cols"
  shows "derive P it sheets s e =
     Inr (Some (derive_rows P it cols (build_transactions P mcols (data mo))
        (collect_ut P (fst ucols) (snd ucols) (data ut) Map.empty) s e (data ap) []))"
  using assms by (cases ucols) (simp add: derive_def)

lemma generate_list_loaded:
  assumes "derive P it sheets s e = Inr (Some D)"
  shows "generate_list P it sheets s e m
     = Inr (m\<lparr> todo_list := sort_list (reconcile (todo_list m) D) \<rparr>)"
  using assms by (simp add: generate_list_def)

lemma rent_item_fields:
  "ap_code (rent_item code realtor_name ts up lu due) = code"
  "due_date (rent_item code realtor_name ts up lu due) = Some (isoformat due)"
  "manual (rent_item code realtor_name ts up lu due) = False"
  by (simp_all add: rent_item_def with_context_def create_todo_item_def split: option.splits)

lemma rent_item_rent_status:
  "status (rent_item code realtor_name ts up lu due) = rent_status ts due"
  by (simp add: rent_item_status rent_status_def)

lemma derived_by_rule_rent_item:
  "in_window s e due \<Longrightarrow> derived_by_rule tr s e (rent_item code realtor_name (tr code) up lu due)"
  unfolding derived_by_rule_def
  by (simp only: rent_item_fields rent_item_rent_status) blast

lemma derived_by_rule_checkout_item:
  "derived_by_rule tr s e (checkout_item code realtor_name ts lu d)"
  by (simp add: derived_by_rule_def checkout_item_fields)

lemma derived_by_rule_process_row:
  assumes "\<forall>x\<in>set nl. derived_by_rule tr s e x"
  shows "\<forall>x\<in>set (process_row P it cols tr lud s e row nl). derived_by_rule tr s e x"
proof (cases "cell row (ap_code_col cols)")
  case None
  then show ?thesis using assms by (simp add: process_row_def)
next
  case (Some code)
  show ?thesis
  proof (cases "code = [] \<or> vacated (tr code)")
    case True
    then show ?thesis using assms Some by (auto simp add: process_row_def Let_def)
  next
    case False
    let ?r = "case cell row (ap_realtor_col cols) of None \<Rightarrow> ''Unknown'' | Some r \<Rightarrow> r"
    let ?rent = "rent_items P cols row code ?r (tr code) (is_upcoming_checkout P cols row s e)
        (lud code) s e"
    have pr: "process_row P it cols tr lud s e row nl =
        checkout_loop code ?r (tr code) (lud code) s e (it (checkout_dates_to_check P cols row))
          (nl @ ?rent)"
      using Some False by (simp add: process_row_def Let_def)
    have rent: "\<forall>x\<in>set ?rent. derived_by_rule tr s e x"
      using rent_items_are_rent_item derived_by_rule_rent_item by blast
    have "set (process_row P it cols tr lud s e row nl)
        \<subseteq> set nl \<union> set ?rent
          \<union> {x. \<exists>d. x = checkout_item code ?r (tr code) (lud code) d}"
      unfolding pr checkout_loop_eq by (auto split: option.splits)
    then show ?thesis
      using assms rent derived_by_rule_checkout_item by blast
  qed
qed

lemma derived_by_rule_derive_rows:
  "\<forall>x\<in>set nl. derived_by_rule tr s e x \<Longrightarrow>
     \<forall>x\<in>set (derive_rows P it cols tr lud s e rows nl). derived_by_rule tr s e x"
proof (induction rows arbitrary: nl)
  case Nil
  then show ?case by simp
next
  case (Cons row rows)
  show ?case
    unfolding derive_rows.simps
    by (rule Cons.IH) (rule derived_by_rule_process_row [OF Cons.prems])
qed

lemma derived_by_rule_merge_item:
  "derived_by_rule tr s e (merge_item os d) = derived_by_rule tr s e d"
  by (simp add: derived_by_rule_def merge_item_def split: option.splits)

lemma merge_item_fields:
  "status (merge_item os d) = status d" "due_date (merge_item os d) = due_date d"
  by (simp_all add: merge_item_def split: option.splits)

text \<open>Every due date of the window on the payment day has its task.\<close>

lemma rent_items_complete:
  assumes "cell row (ap_start_col cols) = Some st" and "P st ''%d-%m-%Y'' = Some csd"
    and "in_window s e due" and "day_of due = day_of csd"
  shows "rent_item code realtor_name ts up lu due
     \<in> set (rent_items P cols row code realtor_name ts up lu s e)"
proof -
  have "due \<in> set (filter (\<lambda>d. day_of d = day_of csd) [s..e])"
    using assms(3,4) by (simp add: in_window_def)
  then show ?thesis
    using assms(1,2) by (simp add: rent_items_def due_dates_loop_eq)
qed

lemma derive_rows_mono: "set nl \<subseteq> set (derive_rows P it cols tr lud s e rows nl)"
proof (induction rows arbitrary: nl)
  case Nil
  then show ?case by simp
next
  case (Cons row rows)
  obtain extra where "process_row P it cols tr lud s e row nl = nl @ extra"
    using process_row_prefix by blast
  then have "set nl \<subseteq> set (process_row P it cols tr lud s e row nl)"
    by simp
  then show ?case
    using Cons.IH [of "process_row P it cols tr lud s e row nl"] by auto
qed

lemma process_row_rent:
  assumes "cell row (ap_code_col cols) = Some code" and "code \<noteq> []" and "\<not> vacated (tr code)"
  shows "set (rent_items P cols row code
            (case cell row (ap_realtor_col cols) of None \<Rightarrow> ''Unknown'' | Some r \<Rightarrow> r)
            (tr code) (is_upcoming_checkout P cols row s e) (lud code) s e)
     \<subseteq> set (process_row P it cols tr lud s e row nl)"
  using assms by (auto simp add: process_row_def Let_def checkout_loop_eq)

lemma derive_rows_rent:
  assumes "row \<in> set rows"
    and "cell row (ap_code_col cols) = Some code" and "code \<noteq> []" and "\<not> vacated (tr code)"
    and "cell row (ap_start_col cols) = Some st" and "P st ''%d-%m-%Y'' = Some csd"
    and "in_window s e due" and "day_of due = day_of csd"
  shows "\<exists>realtor_name up. rent_item code realtor_name (tr code) up (lud code) due
     \<in> set (derive_rows P it cols tr lud s e rows nl)"
  using assms(1)
proof (induction rows arbitrary: nl)
  case Nil
  then show ?case by simp
next
  case (Cons r rows)
  show ?case
  proof (cases "r = row")
    case True
    let ?rn = "case cell row (ap_realtor_col cols) of None \<Rightarrow> ''Unknown'' | Some r \<Rightarrow> r"
    let ?up = "is_upcoming_checkout P cols row s e"
    have ri: "rent_item code ?rn (tr code) ?up (lud code) due
        \<in> set (rent_items P cols row code ?rn (tr code) ?up (lud code) s e)"
      using assms(5,6,7,8) by (rule rent_items_complete)
    have sub: "set (rent_items P cols row code ?rn (tr code) ?up (lud code) s e)
        \<subseteq> set (process_row P it cols tr lud s e row nl)"
      using assms(2,3,4) by (rule process_row_rent)
    have "rent_item code ?rn (tr code) ?up (lud code) due
        \<in> set (process_row P it cols tr lud s e row nl)"
      using ri sub by blast
    then have "rent_item code ?rn (tr code) ?up (lud code) due
        \<in> set (derive_rows P it cols tr lud s e (r # rows) nl)"
      using True
        derive_rows_mono [of "process_row P it cols tr lud s e row nl" P it cols tr lud s e rows]
      by auto
    then show ?thesis by blast
  next
    case False
    then have "row \<in> set rows" using Cons.prems by simp
    from Cons.IH [OF this] show ?thesis by simp
  qed
qed

text \<open>The non-manual tasks of the list after the merge are the derived ones.\<close>

lemma reconcile_derived:
  assumes "\<forall>d\<in>set D. derived_fresh d"
  shows "{x \<in> set (sort_list (reconcile old D)). \<not> manual x}
     = merge_item (build_old_state old []) ` set D"
proof -
  let ?os = "build_old_state old []"
  obtain added where sh: "reconcile old D = map (merge_item ?os) D @ added"
      "\<forall>v\<in>set added. manual v \<and> ap_code v \<notin> ap_code ` set D
            \<and> map_of ?os (item_key v) = Some v"
    using reconcile_shape [of old D] by blast
  have "\<not> manual (merge_item ?os d)" if "d \<in> set D" for d
    using assms that by (simp add: merge_item_manual derived_fresh_def)
  then show ?thesis
    using sh by (auto simp add: set_sort_list)
qed

text \<open>
  Claim C6 (the payment window of a rent due date). Let the three sheets be loaded with
  their columns, so that \<open>generate_list\<close> reaches the loop over the apartments. Then
  every task of the active list after the call that is not manual is a Check-out task or
  the rent task of a due date of the window, and its status is \<open>Paid\<close> exactly when some
  transaction of its apartment is rent-related (its type contains CHECK-IN or its
  specific type contains RENT COLLECT, upper-cased) and is dated from nine days before the
  due date to five days after it, both ends included, and \<open>Unpaid\<close> otherwise. And
  every due date that the loop enumerates for a row (a date of the window on the day of
  the month of the contract start, for a row with a code whose apartment has not checked
  out) has such a task in the list.
\<close>

theorem rent_matching_window:
  assumes "sheets ''APARTMENTS'' = Some ap" and "sheets ''MO_DATA'' = Some mo"
    and "sheets ''UT_DATA'' = Some ut" and "mo_columns (header mo) = Some mcols"
    and "ut_columns (header ut) = Some ucols" and "ap_columns (header ap) = Some cols"
  shows "(\<forall>item\<in>set (todo_list (after_generate P it sheets start_date end_date m)).
            \<not> manual item \<longrightarrow>
            status item = ''Check-out''
            \<or> (\<exists>due. in_window start_date end_date due
                  \<and> due_date item = Some (isoformat due)
                  \<and> status item =
                      (if \<exists>t\<in>set (build_transactions P mcols (data mo) (ap_code item)).
                            (contains ''CHECK-IN'' (upper (trans_type t))
                               \<or> contains ''RENT COLLECT'' (upper (specific t)))
                            \<and> due - 9 \<le> trans_date t \<and> trans_date t \<le> due + 5
                       then ''Paid'' else ''Unpaid'')))
    \<and> (\<forall>row\<in>set (data ap). \<forall>code st contract_start_date due.
            cell row (ap_code_col cols) = Some code \<and> code \<noteq> []
            \<and> \<not> vacated (build_transactions P mcols (data mo) code)
            \<and> cell row (ap_start_col cols) = Some st
            \<and> P st ''%d-%m-%Y'' = Some contract_start_date
            \<and> in_window start_date end_date due
            \<and> day_of due = day_of contract_start_date
            \<longrightarrow> (\<exists>item\<in>set (todo_list (after_generate P it sheets start_date end_date m)).
                   \<not> manual item \<and> ap_code item = code
                   \<and> due_date item = Some (isoformat due)
                   \<and> status item =
                       (if \<exists>t\<in>set (build_transactions P mcols (data mo) code).
                             (contains ''CHECK-IN'' (upper (trans_type t))
                                \<or> contains ''RENT COLLECT'' (upper (specific t)))
                             \<and> due - 9 \<le> trans_date t \<and> trans_date t \<le> due + 5
                        then ''Paid'' else ''Unpaid'')))"
proof -
  let ?tr = "build_transactions P mcols (data mo)"
  let ?lud = "collect_ut P (fst ucols) (snd ucols) (data ut) Map.empty"
  let ?D = "derive_rows P it cols ?tr ?lud start_date end_date (data ap) []"
  let ?os = "build_old_state (todo_list m) []"
  let ?L = "todo_list (after_generate P it sheets start_date end_date m)"
  have d: "derive P it sheets start_date end_date = Inr (Some ?D)"
    using derive_loaded [OF assms] .
  have L: "?L = sort_list (reconcile (todo_list m) ?D)"
    by (simp add: after_generate_def generate_list_loaded [OF d])
  have nm: "{x \<in> set ?L. \<not> manual x} = merge_item ?os ` set ?D"
    unfolding L by (rule reconcile_derived) (rule fresh_derive [OF d])
  have rule: "\<forall>x\<in>set ?D. derived_by_rule ?tr start_date end_date x"
    by (rule derived_by_rule_derive_rows) simp
  have A: "derived_by_rule ?tr start_date end_date item"
    if "item \<in> set ?L" and "\<not> manual item" for item
  proof -
    from that nm obtain x where "x \<in> set ?D" "item = merge_item ?os x"
      by blast
    then show ?thesis
      using rule by (simp add: derived_by_rule_merge_item)
  qed
  have B: "\<exists>item\<in>set ?L. \<not> manual item \<and> ap_code item = code
             \<and> due_date item = Some (isoformat due)
             \<and> status item = rent_status (?tr code) due"
    if "row \<in> set (data ap)" and "cell row (ap_code_col cols) = Some code" and "code \<noteq> []"
      and "\<not> vacated (?tr code)" and "cell row (ap_start_col cols) = Some st"
      and "P st ''%d-%m-%Y'' = Some csd" and "in_window start_date end_date due"
      and "day_of due = day_of csd"
    for row code st csd due
  proof -
    have "\<exists>rn up. rent_item code rn (?tr code) up (?lud code) due \<in> set ?D"
      using that by (rule derive_rows_rent)
    then obtain rn up where x: "rent_item code rn (?tr code) up (?lud code) due \<in> set ?D"
      by blast
    let ?x = "rent_item code rn (?tr code) up (?lud code) due"
    have "merge_item ?os ?x \<in> {x \<in> set ?L. \<not> manual x}"
      using x nm by blast
    moreover have "ap_code (merge_item ?os ?x) = code"
      "due_date (merge_item ?os ?x) = Some (isoformat due)"
      "status (merge_item ?os ?x) = rent_status (?tr code) due"
      by (simp_all add: merge_item_ap_code merge_item_fields rent_item_fields
          rent_item_rent_status)
    ultimately show ?thesis by blast
  qed
  have A': "\<forall>item\<in>set ?L. \<not> manual item \<longrightarrow>
      derived_by_rule ?tr start_date end_date item"
    using A by blast
  have B': "\<forall>row\<in>set (data ap). \<forall>code st csd due.
            cell row (ap_code_col cols) = Some code \<and> code \<noteq> []
            \<and> \<not> vacated (?tr code)
            \<and> cell row (ap_start_col cols) = Some st
            \<and> P st ''%d-%m-%Y'' = Some csd
            \<and> in_window start_date end_date due
            \<and> day_of due = day_of csd
            \<longrightarrow> (\<exists>item\<in>set ?L. \<not> manual item \<and> ap_code item = code
                   \<and> due_date item = Some (isoformat due)
                   \<and> status item = rent_status (?tr code) due)"
    using B by blast
  show ?thesis
    using conjI [OF A' B']
    unfolding derived_by_rule_def rent_status_def payment_matches_def is_rent_payment_def .
qed

theorem rent_matching_window_witness:
  "list_ex (\<lambda>item. ap_code item = ''A1'' \<and> due_date item = Some ''2024-06-15''
              \<and> status item = ''Paid'')
     (todo_list (after_generate strptime_padded remdups
        (rent_sheets [[''A1'', ''06/06/2024'', ''Check-in'', []]]) june_start june_end
        empty_manager))
   \<and> map key_status (todo_list (after_generate strptime_padded remdups
        (rent_sheets [[''A1'', ''06/06/2024'', ''Check-in'', []]]) june_start june_end
        empty_manager))
      = [(''A1'', Some ''2024-06-15'', ''Paid'')]
   \<and> map key_status (todo_list (after_generate strptime_padded remdups
        (rent_sheets [[''A1'', ''05/06/2024'', ''Check-in'', []]]) june_start june_end
        empty_manager))
      = [(''A1'', Some ''2024-06-15'', ''Unpaid'')]
   \<and> map key_status (todo_list (after_generate strptime_padded remdups
        (rent_sheets [[''A1'', ''20/06/2024'', ''Check-in'', []]]) june_start june_end
        empty_manager))
      = [(''A1'', Some ''2024-06-15'', ''Paid'')]
   \<and> map key_status (todo_list (after_generate strptime_padded remdups
        (rent_sheets [[''A1'', ''21/06/2024'', ''Check-in'', []]]) june_start june_end
        empty_manager))
      = [(''A1'', Some ''2024-06-15'', ''Unpaid'')]
   \<and> map key_status (todo_list (after_generate strptime_padded remdups
        (rent_sheets [[''A1'', ''10/06/2024'', ''Transfer'', ''Rent collect'']]) june_start june_end
        empty_manager))
      = [(''A1'', Some ''2024-06-15'', ''Paid'')]
   \<and> map key_status (todo_list (after_generate strptime_padded remdups
        (rent_sheets [[''A1'', ''10/06/2024'', ''Deposit'', ''Refund'']]) june_start june_end
        empty_manager))
      = [(''A1'', Some ''2024-06-15'', ''Unpaid'')]"
proof -
  let ?row = "[''A1'', ''15-01-2024'', ''31-12-2024'', ''Ann'', []]"
  let ?mo_rows = "[[''A1'', ''06/06/2024'', ''Check-in'', []]]"
  let ?sh = "rent_sheets ?mo_rows"
  let ?ap = "\<lparr> header = AP_HEADER, data = [?row] \<rparr>"
  let ?mo = "\<lparr> header = MO_HEADER, data = ?mo_rows \<rparr>"
  let ?ut = "\<lparr> header = UT_HEADER, data = [] \<rparr>"
  let ?mcols = "(0::nat, 1::nat, 2::nat, 3::nat)"
  let ?L = "todo_list (after_generate strptime_padded remdups ?sh june_start june_end
      empty_manager)"
  have h1: "?sh ''APARTMENTS'' = Some ?ap"
    by (simp add: rent_sheets_def sheets_of_def)
  have h2: "?sh ''MO_DATA'' = Some ?mo"
    by (simp add: rent_sheets_def sheets_of_def)
  have h3: "?sh ''UT_DATA'' = Some ?ut"
    by (simp add: rent_sheets_def sheets_of_def)
  have h4: "mo_columns (header ?mo) = Some ?mcols"
    by code_simp
  have h5: "ut_columns (header ?ut) = Some (0, 1)"
    by code_simp
  have h6: "ap_columns (header ?ap) = Some std_cols"
    by code_simp
  have prem: "cell ?row (ap_code_col std_cols) = Some ''A1'' \<and> ''A1'' \<noteq> []
      \<and> \<not> vacated (build_transactions strptime_padded ?mcols (data ?mo) ''A1'')
      \<and> cell ?row (ap_start_col std_cols) = Some ''15-01-2024''
      \<and> strptime_padded ''15-01-2024'' ''%d-%m-%Y'' = Some (ymd2ord 2024 1 15)
      \<and> in_window june_start june_end (ymd2ord 2024 6 15)
      \<and> day_of (ymd2ord 2024 6 15) = day_of (ymd2ord 2024 1 15)"
    by code_simp
  have cond: "\<exists>t\<in>set (build_transactions strptime_padded ?mcols (data ?mo) ''A1'').
      (contains ''CHECK-IN'' (upper (trans_type t))
         \<or> contains ''RENT COLLECT'' (upper (specific t)))
      \<and> ymd2ord 2024 6 15 - 9 \<le> trans_date t \<and> trans_date t \<le> ymd2ord 2024 6 15 + 5"
    by code_simp
  have iso: "isoformat (ymd2ord 2024 6 15) = ''2024-06-15''"
    by code_simp
  have row: "?row \<in> set (data ?ap)"
    by simp
  from conjunct2 [OF rent_matching_window
      [where P = strptime_padded and it = remdups and start_date = june_start
         and end_date = june_end and m = empty_manager, OF h1 h2 h3 h4 h5 h6]]
    row prem
  obtain item where item: "item \<in> set ?L" "ap_code item = ''A1''"
      "due_date item = Some (isoformat (ymd2ord 2024 6 15))"
      "status item =
         (if \<exists>t\<in>set (build_transactions strptime_padded ?mcols (data ?mo) ''A1'').
               (contains ''CHECK-IN'' (upper (trans_type t))
                  \<or> contains ''RENT COLLECT'' (upper (specific t)))
               \<and> ymd2ord 2024 6 15 - 9 \<le> trans_date t \<and> trans_date t \<le> ymd2ord 2024 6 15 + 5
          then ''Paid'' else ''Unpaid'')"
    by blast
  have "status item = ''Paid''"
    using item(4) cond by (simp only: if_True)
  then have a: "list_ex (\<lambda>item. ap_code item = ''A1'' \<and> due_date item = Some ''2024-06-15''
              \<and> status item = ''Paid'') ?L"
    using item(1,2,3) iso unfolding list_ex_iff by auto
  have e1: "map key_status (todo_list (after_generate strptime_padded remdups
        (rent_sheets [[''A1'', ''06/06/2024'', ''Check-in'', []]]) june_start june_end
        empty_manager))
      = [(''A1'', Some ''2024-06-15'', ''Paid'')]"
    by code_simp
  have e2: "map key_status (todo_list (after_generate strptime_padded remdups
        (rent_sheets [[''A1'', ''05/06/2024'', ''Check-in'', []]]) june_start june_end
        empty_manager))
      = [(''A1'', Some ''2024-06-15'', ''Unpaid'')]"
    by code_simp
  have e3: "map key_status (todo_list (after_generate strptime_padded remdups
        (rent_sheets [[''A1'', ''20/06/2024'', ''Check-in'', []]]) june_start june_end
        empty_manager))
      = [(''A1'', Some ''2024-06-15'', ''Paid'')]"
    by code_simp
  have e4: "map key_status (todo_list (after_generate strptime_padded remdups
        (rent_sheets [[''A1'', ''21/06/2024'', ''Check-in'', []]]) june_start june_end
        empty_manager))
      = [(''A1'', Some ''2024-06-15'', ''Unpaid'')]"
    by code_simp
  have e5: "map key_status (todo_list (after_generate strptime_padded remdups
        (rent_sheets [[''A1'', ''10/06/2024'', ''Transfer'', ''Rent collect'']]) june_start june_end
        empty_manager))
      = [(''A1'', Some ''2024-06-15'', ''Paid'')]"
    by code_simp
  have e6: "map key_status (todo_list (after_generate strptime_padded remdups
        (rent_sheets [[''A1'', ''10/06/2024'', ''Deposit'', ''Refund'']]) june_start june_end
        empty_manager))
      = [(''A1'', Some ''2024-06-15'', ''Unpaid'')]"
    by code_simp
  show ?thesis
    by (rule conjI [OF a conjI [OF e1 conjI [OF e2 conjI [OF e3 conjI [OF e4
          conjI [OF e5 e6]]]]]])
qed

text \<open>
  Claim C7 as stated fails on three inputs, all over June 2024. A row of apartment A2
  whose contract ends on 20 June and whose check-out date is 25 June, both in the window:
  when the set yields the contract end first, the Check-out task is due on 20 June, not
  on the check-out date. A row whose contract ends on 20 June and whose check-out date,
  5 July, is present and parses but lies after the window: the task is due on the
  contract end. The same row when the last transaction of A2 is a check-out: the row is
  skipped and there is no Check-out task at all.
\<close>

theorem checkout_task_due_date_counterexample:
  "strptime_padded ''25.06.2024'' ''%d.%m.%Y'' = Some (ymd2ord 2024 6 25)
   \<and> in_window june_start june_end (ymd2ord 2024 6 25)
   \<and> map key_status (todo_list (after_generate strptime_padded remdups
        (sheets_of AP_HEADER [both_dates_row] []) june_start june_end empty_manager))
      = [(''A2'', Some ''2024-06-20'', ''Check-out'')]
   \<and> strptime_padded ''05.07.2024'' ''%d.%m.%Y'' = Some (ymd2ord 2024 7 5)
   \<and> map key_status (todo_list (after_generate strptime_padded remdups
        (sheets_of AP_HEADER [end_only_row] []) june_start june_end empty_manager))
      = [(''A2'', Some ''2024-06-20'', ''Check-out'')]
   \<and> todo_list (after_generate strptime_padded remdups
        (sheets_of AP_HEADER [end_only_row] [vacated_mo_row]) june_start june_end empty_manager)
      = []"
proof -
  have p: "strptime_padded ''25.06.2024'' ''%d.%m.%Y'' = Some (ymd2ord 2024 6 25)"
    by code_simp
  have w: "in_window june_start june_end (ymd2ord 2024 6 25)"
    by code_simp
  have o: "map key_status (todo_list (after_generate strptime_padded remdups
        (sheets_of AP_HEADER [both_dates_row] []) june_start june_end empty_manager))
      = [(''A2'', Some ''2024-06-20'', ''Check-out'')]"
    by code_simp
  have a: "strptime_padded ''05.07.2024'' ''%d.%m.%Y'' = Some (ymd2ord 2024 7 5)"
    by code_simp
  have b: "map key_status (todo_list (after_generate strptime_padded remdups
        (sheets_of AP_HEADER [end_only_row] []) june_start june_end empty_manager))
      = [(''A2'', Some ''2024-06-20'', ''Check-out'')]"
    by code_simp
  have c: "todo_list (after_generate strptime_padded remdups
        (sheets_of AP_HEADER [end_only_row] [vacated_mo_row]) june_start june_end empty_manager)
      = []"
    by code_simp
  show ?thesis
    by (rule conjI [OF p conjI [OF w conjI [OF o conjI [OF a conjI [OF b c]]]]])
qed

text \<open>
  Under the other iteration order of the set the first row gives the check-out date: the
  code has no preference of its own.
\<close>

lemma checkout_due_date_other_set_order:
  "map key_status (todo_list (after_generate strptime_padded (\<lambda>ds. rev (remdups ds))
        (sheets_of AP_HEADER [both_dates_row] []) june_start june_end empty_manager))
      = [(''A2'', Some ''2024-06-25'', ''Check-out'')]"
  by code_simp

text \<open>
  Claim C7, amended (one Check-out task per apartment). Let the three sheets be loaded
  with their columns, so that \<open>generate_list\<close> reaches the loop over the apartments. Let
  a row of \<open>APARTMENTS\<close> have a non-empty code, let the last transaction of that apartment
  not be a check-out, and let the contract end or the check-out date of the row parse to
  a date of the window. Then \<open>generate_list\<close> returns, the pass derives exactly one task
  with status Check-out for that code, whatever the other rows are and also when both
  dates lie in the window, and the active list after the call has exactly one too. Its
  due date is a date of the window among the contract end and the check-out date of such
  a row of that code.
\<close>

theorem checkout_task_exactly_once:
  assumes "set_iteration it"
    and "sheets ''APARTMENTS'' = Some ap" and "sheets ''MO_DATA'' = Some mo"
    and "sheets ''UT_DATA'' = Some ut" and "mo_columns (header mo) = Some mcols"
    and "ut_columns (header ut) = Some ucols" and "ap_columns (header ap) = Some cols"
    and "row \<in> set (data ap)"
    and "checkout_due P cols (build_transactions P mcols (data mo)) start_date end_date code row"
  shows "\<exists>D L item item' row' d.
      derive P it sheets start_date end_date = Inr (Some D)
      \<and> generate_list P it sheets start_date end_date m = Inr (m\<lparr> todo_list := L \<rparr>)
      \<and> filter (is_checkout_of code) D = [item]
      \<and> filter (is_checkout_of code) L = [item']
      \<and> row' \<in> set (data ap)
      \<and> checkout_due P cols (build_transactions P mcols (data mo)) start_date end_date code row'
      \<and> d \<in> set (checkout_dates_to_check P cols row')
      \<and> in_window start_date end_date d
      \<and> due_date item = Some (isoformat d)
      \<and> due_date item' = Some (isoformat d)"
proof -
  let ?tr = "build_transactions P mcols (data mo)"
  let ?lud = "collect_ut P (fst ucols) (snd ucols) (data ut) Map.empty"
  let ?D = "derive_rows P it cols ?tr ?lud start_date end_date (data ap) []"
  let ?os = "build_old_state (todo_list m) []"
  let ?L = "sort_list (reconcile (todo_list m) ?D)"
  have d: "derive P it sheets start_date end_date = Inr (Some ?D)"
    using derive_loaded [OF assms(2-7)] .
  have g: "generate_list P it sheets start_date end_date m = Inr (m\<lparr> todo_list := ?L \<rparr>)"
    using generate_list_loaded [OF d] .
  from derive_rows_checkout_once [OF assms(1) _ assms(8,9), of "[]" ?lud]
  obtain row' dd item where r: "row' \<in> set (data ap)"
      "dd \<in> set (checkout_dates_to_check P cols row')"
      "filter (is_checkout_of code) ?D = [item]"
      "checkout_due P cols ?tr start_date end_date code row'"
      "in_window start_date end_date dd" "due_date item = Some (isoformat dd)"
    by auto
  have f: "filter (is_checkout_of code) ?L = [merge_item ?os item]"
    using reconcile_checkouts [OF r(3)] .
  have dm: "due_date (merge_item ?os item) = Some (isoformat dd)"
    using r(6) by (simp add: merge_item_fields)
  show ?thesis
    using d g r f dm by blast
qed

theorem checkout_task_exactly_once_witness:
  "map due_date (filter (is_checkout_of ''A2'')
      (todo_list (after_generate strptime_padded remdups
         (sheets_of AP_HEADER [end_only_row] []) june_start june_end empty_manager)))
     = [Some ''2024-06-20'']"
proof -
  let ?sh = "sheets_of AP_HEADER [end_only_row] []"
  let ?ap = "\<lparr> header = AP_HEADER, data = [end_only_row] \<rparr>"
  let ?mo = "\<lparr> header = MO_HEADER, data = [] \<rparr>"
  let ?ut = "\<lparr> header = UT_HEADER, data = [] \<rparr>"
  let ?mcols = "(0::nat, 1::nat, 2::nat, 3::nat)"
  have h0: "set_iteration remdups"
    by (simp add: set_iteration_def)
  have h1: "?sh ''APARTMENTS'' = Some ?ap"
    by (simp add: sheets_of_def)
  have h2: "?sh ''MO_DATA'' = Some ?mo"
    by (simp add: sheets_of_def)
  have h3: "?sh ''UT_DATA'' = Some ?ut"
    by (simp add: sheets_of_def)
  have h4: "mo_columns (header ?mo) = Some ?mcols"
    by code_simp
  have h5: "ut_columns (header ?ut) = Some (0, 1)"
    by code_simp
  have h6: "ap_columns (header ?ap) = Some std_cols"
    by code_simp
  have h7: "end_only_row \<in> set (data ?ap)"
    by simp
  have h8: "checkout_due strptime_padded std_cols
      (build_transactions strptime_padded ?mcols (data ?mo)) june_start june_end ''A2''
      end_only_row"
    by code_simp
  have ds: "checkout_dates_to_check strptime_padded std_cols end_only_row
      = [ymd2ord 2024 6 20, ymd2ord 2024 7 5]"
    by code_simp
  have w: "\<not> in_window june_start june_end (ymd2ord 2024 7 5)"
    by code_simp
  have i: "isoformat (ymd2ord 2024 6 20) = ''2024-06-20''"
    by code_simp
  from checkout_task_exactly_once [where m = empty_manager, OF h0 h1 h2 h3 h4 h5 h6 h7 h8]
  obtain L item' row' d where r:
      "generate_list strptime_padded remdups ?sh june_start june_end empty_manager
         = Inr (empty_manager\<lparr> todo_list := L \<rparr>)"
      "filter (is_checkout_of ''A2'') L = [item']"
      "row' \<in> set (data ?ap)"
      "d \<in> set (checkout_dates_to_check strptime_padded std_cols row')"
      "in_window june_start june_end d"
      "due_date item' = Some (isoformat d)"
    by blast
  have "row' = end_only_row"
    using r(3) by simp
  then have "d = ymd2ord 2024 6 20"
    using r(4,5) w ds by auto
  then have "map due_date (filter (is_checkout_of ''A2'') L) = [Some ''2024-06-20'']"
    using r(2,6) i by simp
  moreover have "todo_list (after_generate strptime_padded remdups ?sh june_start june_end
      empty_manager) = L"
    by (simp add: after_generate_def r(1))
  ultimately show ?thesis
    by simp
qed

subsection \<open>Manual tasks across regeneration\<close>

text \<open>
  Claim C2 (manual tasks survive regeneration): the code drops more than the claim allows.
  Whenever the pass derives a task for an apartment, no manual task of that apartment is
  in the active list after the call, whatever its due date and whatever the old list: the
  test before re-adding a manual task compares apartment codes, not keys.
\<close>

theorem manual_task_dropped_by_code:
  assumes "derive P it sheets start_date end_date = Inr (Some D)"
    and "manual v" and "ap_code v \<in> ap_code ` set D"
  shows "v \<notin> set (todo_list (after_generate P it sheets start_date end_date m))"
proof -
  let ?os = "build_old_state (todo_list m) []"
  obtain added where sh: "reconcile (todo_list m) D = map (merge_item ?os) D @ added"
      "\<forall>v\<in>set added. manual v \<and> ap_code v \<notin> ap_code ` set D
            \<and> map_of ?os (item_key v) = Some v"
    using reconcile_shape [of "todo_list m" D] by blast
  have "\<forall>d\<in>set D. \<not> manual d"
    using fresh_derive [OF assms(1)] by (simp add: derived_fresh_def)
  then have "v \<notin> set (map (merge_item ?os) D)"
    using assms(2) by (auto simp add: merge_item_manual)
  moreover have "v \<notin> set added"
    using sh(2) assms(3) by blast
  ultimately have "v \<notin> set (sort_list (reconcile (todo_list m) D))"
    by (simp add: set_sort_list sh(1))
  then show ?thesis
    using assms(1) by (simp add: after_generate_def generate_list_def)
qed

theorem manual_task_dropped_by_code_witness:
  "undated_task \<in> set (todo_list manual_manager)
   \<and> manual undated_task
   \<and> item_key undated_task \<notin> item_key ` set [paid_task]
   \<and> derive strptime_padded remdups paid_sheets june_start june_end = Inr (Some [paid_task])
   \<and> undated_task \<notin> set (todo_list
        (after_generate strptime_padded remdups paid_sheets june_start june_end manual_manager))"
proof -
  have a: "undated_task \<in> set (todo_list manual_manager)"
    by (simp add: manual_manager_def)
  have h2: "manual undated_task"
    by (simp add: undated_task_def)
  have k: "item_key undated_task \<notin> item_key ` set [paid_task]"
    by (simp add: item_key_def or_empty_def undated_task_def paid_task_def create_todo_item_def)
  have h3: "ap_code undated_task \<in> ap_code ` set [paid_task]"
    by (simp add: undated_task_def paid_task_def create_todo_item_def)
  have g: "undated_task \<notin> set (todo_list
        (after_generate strptime_padded remdups paid_sheets june_start june_end manual_manager))"
    using manual_task_dropped_by_code [OF derive_paid_sheets h2 h3] .
  show ?thesis
    by (rule conjI [OF a conjI [OF h2 conjI [OF k conjI [OF derive_paid_sheets g]]]])
qed

subsection \<open>Two tasks with one key\<close>

text \<open>
  Claim C3 (keys are unique after regeneration): the code derives two tasks with one key.
  Apartment A1 pays rent on the 15th of the month and its contract ends on 15 June 2024.
  Over June 2024, from an empty list, \<open>generate_list\<close> leaves the rent task of 15 June and
  the Check-out task of 15 June in the active list, both with the key of A1 and
  2024-06-15.
\<close>

theorem generate_list_duplicate_key:
  "map key_status (todo_list (after_generate strptime_padded remdups example_sheets
      june_start june_end empty_manager))
     = [(''A1'', Some ''2024-06-15'', ''Unpaid''), (''A1'', Some ''2024-06-15'', ''Check-out'')]
   \<and> map item_key (todo_list (after_generate strptime_padded remdups example_sheets
      june_start june_end empty_manager))
     = [''A12024-06-15'', ''A12024-06-15'']"
proof -
  have a: "map key_status (todo_list (after_generate strptime_padded remdups example_sheets
      june_start june_end empty_manager))
     = [(''A1'', Some ''2024-06-15'', ''Unpaid''), (''A1'', Some ''2024-06-15'', ''Check-out'')]"
    by code_simp
  have b: "map item_key (todo_list (after_generate strptime_padded remdups example_sheets
      june_start june_end empty_manager))
     = [''A12024-06-15'', ''A12024-06-15'']"
    by code_simp
  show ?thesis
    by (rule conjI [OF a b])
qed

subsection \<open>Missing columns\<close>

text \<open>
  Claim C8 (no exception reaches the caller): the code raises. When the three sheets are
  loaded and \<open>MO_DATA\<close> has its four columns, a header of \<open>UT_DATA\<close> without
  \<open>Apartment Code\<close> or \<open>Date of Reading\<close>, or a header of \<open>APARTMENTS\<close> without one of
  \<open>AP CODE\<close>, \<open>START\<close>, \<open>END\<close>, \<open>REALTOR\<close>, \<open>CHECK_OUT\<close>, makes \<open>generate_list\<close> raise
  \<open>ValueError\<close>: these \<open>index\<close> calls are under no \<open>try\<close>.
\<close>

theorem generate_list_raises_ValueError:
  assumes "sheets ''APARTMENTS'' = Some ap" and "sheets ''MO_DATA'' = Some mo"
    and "sheets ''UT_DATA'' = Some ut" and "mo_columns (header mo) \<noteq> None"
    and "ut_columns (header ut) = None \<or> ap_columns (header ap) = None"
  shows "generate_list P it sheets start_date end_date m = Inl ValueError"
proof -
  obtain mcols where mc: "mo_columns (header mo) = Some mcols"
    using assms(4) by blast
  show ?thesis
  proof (cases "ut_columns (header ut)")
    case None
    then show ?thesis
      using assms(1-3) mc by (simp add: generate_list_def derive_def)
  next
    case (Some uc)
    then have "ap_columns (header ap) = None"
      using assms(5) by simp
    then show ?thesis
      using assms(1-3) mc Some by (simp add: generate_list_def derive_def split: prod.splits)
  qed
qed

theorem generate_list_raises_ValueError_witness:
  "generate_list strptime_padded remdups no_checkout_sheets june_start june_end empty_manager
     = Inl ValueError
   \<and> list_index [''AP CODE'', ''START'', ''END'', ''REALTOR''] ''CHECK_OUT'' = None"
proof -
  let ?ap = "\<lparr> header = [''AP CODE'', ''START'', ''END'', ''REALTOR''],
      data = [[''A1'', ''15-01-2024'', ''31-12-2024'', ''Ann'']] \<rparr>"
  let ?mo = "\<lparr> header = MO_HEADER, data = [] \<rparr>"
  let ?ut = "\<lparr> header = UT_HEADER, data = [] \<rparr>"
  have h1: "no_checkout_sheets ''APARTMENTS'' = Some ?ap"
    by (simp add: no_checkout_sheets_def sheets_of_def)
  have h2: "no_checkout_sheets ''MO_DATA'' = Some ?mo"
    by (simp add: no_checkout_sheets_def sheets_of_def)
  have h3: "no_checkout_sheets ''UT_DATA'' = Some ?ut"
    by (simp add: no_checkout_sheets_def sheets_of_def)
  have h4: "mo_columns (header ?mo) \<noteq> None"
    by code_simp
  have h5: "ut_columns (header ?ut) = None \<or> ap_columns (header ?ap) = None"
    by code_simp
  have i: "list_index [''AP CODE'', ''START'', ''END'', ''REALTOR''] ''CHECK_OUT'' = None"
    by code_simp
  show ?thesis
    using generate_list_raises_ValueError [OF h1 h2 h3 h4 h5] i by blast
qed

end
